theory Spec2Isabelle
  imports Main "HOL-Library.Word"
begin

section \<open>JavaScript string primitives\<close>

text \<open>
  A JavaScript string is modelled as a \<^typ>\<open>string\<close>, one \<^typ>\<open>char\<close> per code unit;
  code units above 255 are outside the model. Within that range the regular
  expression class \<^verbatim>\<open>\s\<close> and \<^verbatim>\<open>String.prototype.trim\<close> agree on TAB, LF, VT, FF,
  CR, SPACE and NBSP.
\<close>

definition isSpace :: "char \<Rightarrow> bool" where
  "isSpace c = (c = CHR 0x09 \<or> c = CHR 0x0A \<or> c = CHR 0x0B \<or> c = CHR 0x0C \<or> c = CHR 0x0D
     \<or> c = CHR '' '' \<or> c = CHR 0xA0)"

text \<open>\<^verbatim>\<open>s.trim()\<close>\<close>

definition trim :: "string \<Rightarrow> string" where
  "trim s = rev (dropWhile isSpace (rev (dropWhile isSpace s)))"

text \<open>\<^verbatim>\<open>s.startsWith(p)\<close>, \<^verbatim>\<open>s.endsWith(p)\<close> and \<^verbatim>\<open>s.includes(p)\<close> (named includesStr here)\<close>

definition startsWith :: "string \<Rightarrow> string \<Rightarrow> bool" where
  "startsWith s p = (take (length p) s = p)"

definition endsWith :: "string \<Rightarrow> string \<Rightarrow> bool" where
  "endsWith s p = startsWith (rev s) (rev p)"

fun includesStr :: "string \<Rightarrow> string \<Rightarrow> bool" where
  "includesStr [] p = (p = [])"
| "includesStr (c # cs) p = (startsWith (c # cs) p \<or> includesStr cs p)"

text \<open>\<^verbatim>\<open>s.replace(/\s+/g, ' ')\<close>: every maximal run of white space becomes one space.\<close>

function collapse :: "string \<Rightarrow> string" where
  "collapse [] = []"
| "collapse (c # cs) =
     (if isSpace c then CHR '' '' # collapse (dropWhile isSpace cs) else c # collapse cs)"
  by pat_completeness auto
termination
  by (relation "measure length") (auto simp: le_imp_less_Suc length_dropWhile_le)

text \<open>
  \<^verbatim>\<open>s.replace(pat, rep)\<close> with a string pattern: only the first occurrence is
  replaced, and in the replacement \<^verbatim>\<open>$$\<close> stands for a dollar sign, \<^verbatim>\<open>$&\<close> for the
  matched text, \<^verbatim>\<open>$`\<close> for the text before the match and \<^verbatim>\<open>$'\<close> for the text after
  it (a string pattern has no capture groups, so \<^verbatim>\<open>$1\<close> stays as it is).
\<close>

fun getSubstitution :: "string \<Rightarrow> string \<Rightarrow> string \<Rightarrow> string \<Rightarrow> string" where
  "getSubstitution matched preceding following [] = []"
| "getSubstitution matched preceding following [c] = [c]"
| "getSubstitution matched preceding following (c # d # rest) =
     (if c = CHR ''$'' \<and> d = CHR ''$'' then CHR ''$'' # getSubstitution matched preceding following rest
      else if c = CHR ''$'' \<and> d = CHR ''&'' then matched @ getSubstitution matched preceding following rest
      else if c = CHR ''$'' \<and> d = CHR 0x60 then preceding @ getSubstitution matched preceding following rest
      else if c = CHR ''$'' \<and> d = CHR 0x27 then following @ getSubstitution matched preceding following rest
      else c # getSubstitution matched preceding following (d # rest))"

fun replaceAt :: "string \<Rightarrow> string \<Rightarrow> string \<Rightarrow> string \<Rightarrow> string" where
  "replaceAt preceding [] pat rep =
     (if pat = [] then preceding @ getSubstitution pat preceding [] rep else preceding)"
| "replaceAt preceding (c # cs) pat rep =
     (if startsWith (c # cs) pat
      then (let following = drop (length pat) (c # cs)
            in preceding @ getSubstitution pat preceding following rep @ following)
      else replaceAt (preceding @ [c]) cs pat rep)"

definition replaceFirst :: "string \<Rightarrow> string \<Rightarrow> string \<Rightarrow> string" where
  "replaceFirst s pat rep = replaceAt [] s pat rep"

text \<open>\<^verbatim>\<open>s.slice(start, -1)\<close>\<close>

definition sliceToLast :: "string \<Rightarrow> nat \<Rightarrow> string" where
  "sliceToLast s start = take (length s - 1 - start) (drop start s)"

section \<open>The command gate: \<^verbatim>\<open>ShellTool.isCommandAllowed\<close>\<close>

text \<open>
  The \<^verbatim>\<open>Config\<close> object, by the values its getters return. \<^verbatim>\<open>getCoreTools()\<close> and
  \<^verbatim>\<open>getExcludeTools()\<close> may return \<^verbatim>\<open>undefined\<close>, hence the options.
\<close>

record config =
  getCoreTools :: "string list option"
  getExcludeTools :: "string list option"
  getTargetDir :: string
  getDebugMode :: bool

text \<open>\<^verbatim>\<open>[ShellTool.name, ShellTool.Name]\<close>: the class name and the static field.\<close>

definition SHELL_TOOL_NAMES :: "string list" where
  "SHELL_TOOL_NAMES = [''ShellTool'', ''run_shell_command'']"

definition normalize :: "string \<Rightarrow> string" where
  "normalize cmd = collapse (trim cmd)"

definition isPrefixedBy :: "string \<Rightarrow> string \<Rightarrow> bool" where
  "isPrefixedBy cmd pre =
     (if \<not> startsWith cmd pre then False
      else length cmd = length pre
        \<or> (length pre < length cmd \<and> cmd ! length pre = CHR '' ''))"

text \<open>The \<^verbatim>\<open>for (const toolName of SHELL_TOOL_NAMES)\<close> loop inside \<^verbatim>\<open>extractCommands\<close>.\<close>

fun extractFor :: "string list \<Rightarrow> string \<Rightarrow> string list" where
  "extractFor [] tool = []"
| "extractFor (toolName # rest) tool =
     (if startsWith tool (toolName @ ''('') \<and> endsWith tool '')''
      then [normalize (sliceToLast tool (length toolName + 1))]
      else extractFor rest tool)"

definition extractCommands :: "string list \<Rightarrow> string list" where
  "extractCommands tools = concat (map (extractFor SHELL_TOOL_NAMES) tools)"

text \<open>\<^verbatim>\<open>new Set(xs)\<close>, as the list of its elements in insertion order.\<close>

fun newSet :: "'a list \<Rightarrow> 'a list" where
  "newSet [] = []"
| "newSet (x # xs) = x # filter (\<lambda>y. y \<noteq> x) (newSet xs)"

text \<open>
  \<^verbatim>\<open>command.split(/&&|\|\||\||;/)\<close>: the alternatives are tried in order at each
  position, every match is non-empty, and the text between matches is kept
  (also when it is empty).
\<close>

definition consHead :: "char \<Rightarrow> string list \<Rightarrow> string list" where
  "consHead c xs = (case xs of [] \<Rightarrow> [[c]] | x # rest \<Rightarrow> (c # x) # rest)"

fun splitCommands :: "string \<Rightarrow> string list" where
  "splitCommands [] = [[]]"
| "splitCommands [c] = (if c = CHR ''|'' \<or> c = CHR '';'' then [[], []] else [[c]])"
| "splitCommands (c # d # cs) =
     (if c = CHR ''&'' \<and> d = CHR ''&'' then [] # splitCommands cs
      else if c = CHR ''|'' \<and> d = CHR ''|'' then [] # splitCommands cs
      else if c = CHR ''|'' then [] # splitCommands (d # cs)
      else if c = CHR '';'' then [] # splitCommands (d # cs)
      else consHead c (splitCommands (d # cs)))"

text \<open>The \<^verbatim>\<open>for (const cmd of commandsToValidate)\<close> loop, with its early returns.\<close>

fun validateLoop :: "string list \<Rightarrow> string list \<Rightarrow> bool \<Rightarrow> bool \<Rightarrow> string list \<Rightarrow> bool" where
  "validateLoop blockedCommands allowedCommands hasSpecific isWildcard [] = True"
| "validateLoop blockedCommands allowedCommands hasSpecific isWildcard (cmd # cmds) =
     (let isBlocked = list_ex (\<lambda>blocked. isPrefixedBy cmd blocked) blockedCommands in
      if isBlocked then False
      else
        let isStrictAllowlist = (hasSpecific \<and> \<not> isWildcard) in
        if isStrictAllowlist
        then
          (let isAllowed = list_ex (\<lambda>allowed. isPrefixedBy cmd allowed) allowedCommands in
           if \<not> isAllowed then False
           else validateLoop blockedCommands allowedCommands hasSpecific isWildcard cmds)
        else validateLoop blockedCommands allowedCommands hasSpecific isWildcard cmds)"

definition coreToolsOf :: "config \<Rightarrow> string list" where
  "coreToolsOf cfg = (case getCoreTools cfg of None \<Rightarrow> [] | Some ts \<Rightarrow> ts)"

definition excludeToolsOf :: "config \<Rightarrow> string list" where
  "excludeToolsOf cfg = (case getExcludeTools cfg of None \<Rightarrow> [] | Some ts \<Rightarrow> ts)"

definition isCommandAllowed :: "config \<Rightarrow> string \<Rightarrow> bool" where
  "isCommandAllowed cfg command =
     (if includesStr command ''$('' \<or> includesStr command ''`'' then False
      else
        let coreTools = coreToolsOf cfg;
            excludeTools = excludeToolsOf cfg
        in
        if list_ex (\<lambda>name. name \<in> set excludeTools) SHELL_TOOL_NAMES then False
        else
          let blockedCommands = newSet (extractCommands excludeTools);
              allowedCommands = newSet (extractCommands coreTools);
              hasSpecificAllowedCommands = (length allowedCommands > 0);
              isWildcardAllowed = list_ex (\<lambda>name. name \<in> set coreTools) SHELL_TOOL_NAMES;
              commandsToValidate = map normalize (splitCommands command)
          in validateLoop blockedCommands allowedCommands hasSpecificAllowedCommands
               isWildcardAllowed commandsToValidate)"

section \<open>Validation and confirmation: \<^verbatim>\<open>ShellTool\<close>\<close>

record ShellToolParams =
  command :: string
  description :: "string option"
  directory :: "string option"

text \<open>The mutable fields of a \<^verbatim>\<open>ShellTool\<close> instance. Times are milliseconds.\<close>

record ShellTool =
  whitelist :: "string set"
  sudoPassword :: "string option"
  sudoPasswordTimestamp :: "int option"

text \<open>
  What the tool reads from its host: the platform, the schema validator, the
  \<^verbatim>\<open>path\<close> and \<^verbatim>\<open>fs\<close> modules and the \<^verbatim>\<open>strip-ansi\<close> package. None of them is code
  of this repository, so they are parameters.
\<close>

record host =
  isWindows :: bool
  schemaValidate :: "ShellToolParams \<Rightarrow> bool"
  isAbsolute :: "string \<Rightarrow> bool"
  resolve :: "string \<Rightarrow> string \<Rightarrow> string"
  existsSync :: "string \<Rightarrow> bool"
  stripAnsi :: "string \<Rightarrow> string"

definition SUDO_CACHE_DURATION_MS :: int where
  "SUDO_CACHE_DURATION_MS = 15 * 60 * 1000"

text \<open>
  \<^verbatim>\<open>command.trim().replace(/[{}()]/g, '').split(/[\s;&|]+/)[0]?.split(/[/\\]/).pop()\<close>:
  the first piece of the first split is the text before the first separator, the
  last piece of the second split is the text after the last slash or backslash.
\<close>

definition getCommandRoot :: "string \<Rightarrow> string" where
  "getCommandRoot cmd =
     (let stripped = filter (\<lambda>c. c \<noteq> CHR ''{'' \<and> c \<noteq> CHR ''}'' \<and> c \<noteq> CHR ''('' \<and> c \<noteq> CHR '')'')
                       (trim cmd);
          first = takeWhile (\<lambda>c. \<not> (isSpace c \<or> c = CHR '';'' \<or> c = CHR ''&'' \<or> c = CHR ''|''))
                    stripped
      in rev (takeWhile (\<lambda>c. c \<noteq> CHR ''/'' \<and> c \<noteq> CHR 0x5C) (rev first)))"

text \<open>\<^verbatim>\<open>validateToolParams\<close>: \<^term>\<open>None\<close> is \<^verbatim>\<open>null\<close>, the parameters are valid.\<close>

definition validateToolParams :: "host \<Rightarrow> config \<Rightarrow> ShellToolParams \<Rightarrow> string option" where
  "validateToolParams h cfg params =
     (if \<not> isCommandAllowed cfg (command params)
      then Some (''Command is not allowed: '' @ command params)
      else if \<not> schemaValidate h params
      then Some ''Parameters failed schema validation.''
      else if trim (command params) = []
      then Some ''Command cannot be empty.''
      else if getCommandRoot (command params) = []
      then Some ''Could not identify command root to obtain permission from user.''
      else
        (case directory params of
           None \<Rightarrow> None
         | Some dir \<Rightarrow>
             if dir = [] then None
             else if isAbsolute h dir
             then Some ''Directory cannot be absolute. Must be relative to the project root directory.''
             else if \<not> existsSync h (resolve h (getTargetDir cfg) dir)
             then Some ''Directory must exist.''
             else None))"

text \<open>
  \<^verbatim>\<open>this.sudoPassword && this.sudoPasswordTimestamp && Date.now() - this.sudoPasswordTimestamp < this.SUDO_CACHE_DURATION_MS\<close>,
  as a truth value: the empty string and the number 0 are falsy.
\<close>

definition isPasswordCached :: "ShellTool \<Rightarrow> int \<Rightarrow> bool" where
  "isPasswordCached tool now =
     (case sudoPassword tool of
        None \<Rightarrow> False
      | Some pw \<Rightarrow>
          pw \<noteq> [] \<and>
          (case sudoPasswordTimestamp tool of
             None \<Rightarrow> False
           | Some ts \<Rightarrow> ts \<noteq> 0 \<and> now - ts < SUDO_CACHE_DURATION_MS))"

datatype ToolConfirmationOutcome =
  ProceedOnce | ProceedAlways | ProceedAlwaysServer | ProceedAlwaysTool | ModifyWithEditor | Cancel

text \<open>
  The two kinds of confirmation the tool builds. \<^verbatim>\<open>onConfirm\<close> is the closure of the
  source, as a function of what the user entered, the clock at that moment and
  the tool's fields.
\<close>

datatype ToolCallConfirmationDetails =
    PasswordDetails string string "string \<Rightarrow> int \<Rightarrow> ShellTool \<Rightarrow> ShellTool"
  | ExecDetails string string string "ToolConfirmationOutcome \<Rightarrow> ShellTool \<Rightarrow> ShellTool"

text \<open>\<^verbatim>\<open>shouldConfirmExecute\<close>: \<^term>\<open>None\<close> is \<^verbatim>\<open>false\<close>, no confirmation is shown.\<close>

definition shouldConfirmExecute ::
  "host \<Rightarrow> config \<Rightarrow> ShellTool \<Rightarrow> ShellToolParams \<Rightarrow> int \<Rightarrow> ToolCallConfirmationDetails option" where
  "shouldConfirmExecute h cfg tool params now =
     (if validateToolParams h cfg params \<noteq> None then None
      else
        let rootCommand = getCommandRoot (command params);
            isSudo = startsWith (trim (command params)) ''sudo ''
        in
        if isSudo \<and> \<not> isWindows h \<and> \<not> isPasswordCached tool now
        then Some (PasswordDetails ''Sudo Password Required'' ''sudo''
               (\<lambda>password now' t. t\<lparr>sudoPassword := Some password,
                                     sudoPasswordTimestamp := Some now'\<rparr>))
        else if rootCommand \<in> whitelist tool then None
        else Some (ExecDetails ''Confirm Shell Command'' (command params) rootCommand
               (\<lambda>outcome t. if outcome = ProceedAlways
                             then t\<lparr>whitelist := insert rootCommand (whitelist t)\<rparr> else t)))"

section \<open>The credential cache of the interactive shell: \<^verbatim>\<open>SudoProvider\<close>\<close>

record SudoContext =
  password :: "string option"
  timestamp :: "int option"

definition setPassword :: "string \<Rightarrow> int \<Rightarrow> SudoContext \<Rightarrow> SudoContext" where
  "setPassword newPassword now ctx = ctx\<lparr>password := Some newPassword, timestamp := Some now\<rparr>"

text \<open>\<^verbatim>\<open>getPassword\<close> returns the secret or \<^verbatim>\<open>undefined\<close>, and the state it leaves.\<close>

definition getPassword :: "int \<Rightarrow> SudoContext \<Rightarrow> string option \<times> SudoContext" where
  "getPassword now ctx =
     (case password ctx of
        None \<Rightarrow> (None, ctx)
      | Some pw \<Rightarrow>
          if pw \<noteq> [] \<and>
             (case timestamp ctx of None \<Rightarrow> False
              | Some ts \<Rightarrow> ts \<noteq> 0 \<and> now - ts < SUDO_CACHE_DURATION_MS)
          then (Some pw, ctx)
          else if pw \<noteq> [] then (None, ctx\<lparr>password := None, timestamp := None\<rparr>)
          else (None, ctx))"

section \<open>Preparing the process: \<^verbatim>\<open>ShellTool.execute\<close>\<close>

record ToolResult =
  llmContent :: string
  returnDisplay :: string

text \<open>
  The call \<^verbatim>\<open>spawn(file, args, options)\<close>. The option \<^verbatim>\<open>stdio\<close> is left out: the
  standard input is ignored and both output streams are pipes, except in the one
  variant that writes the secret to the standard input.
\<close>

record SpawnCall =
  spawnFile :: string
  spawnArgs :: "string list"
  detached :: bool
  cwd :: string

text \<open>\<^verbatim>\<open>password.replace(/'/g, "'\\''")\<close>\<close>

definition escapeQuotes :: "string \<Rightarrow> string" where
  "escapeQuotes pw =
     concat (map (\<lambda>c. if c = CHR 0x27 then [CHR 0x27, CHR 0x5C, CHR 0x27, CHR 0x27] else [c]) pw)"

text \<open>
  The wrapped command of a sudo request, the same expression in \<^verbatim>\<open>ShellTool.execute\<close>
  and in \<^verbatim>\<open>executeShellCommand\<close>:
  \<^verbatim>\<open>`echo '${escapedPassword}' | ${userCommand.replace('sudo', 'sudo -S --')}`\<close>
\<close>

definition sudoWrapped :: "string \<Rightarrow> string \<Rightarrow> string" where
  "sudoWrapped pw cmd =
     (let userCommand = trim cmd;
          escapedPassword = escapeQuotes pw
      in ''echo '' @ [CHR 0x27] @ escapedPassword @ [CHR 0x27] @ '' | ''
           @ replaceFirst userCommand ''sudo'' ''sudo -S --'')"

text \<open>The trailer that lists the process group into the scratch file.\<close>

definition pgrepWrapped :: "string \<Rightarrow> string \<Rightarrow> string" where
  "pgrepWrapped commandToExecute tempFilePath =
     (let cmd = (if \<not> endsWith (trim commandToExecute) ''&''
                 then commandToExecute @ '';'' else commandToExecute)
      in ''{ '' @ cmd @ '' }; __code=$?; pgrep -g 0 >'' @ tempFilePath @ '' 2>&1; exit $__code;'')"

text \<open>
  \<^verbatim>\<open>execute\<close> up to the \<^verbatim>\<open>spawn\<close> call: either it returns early (\<^term>\<open>Inl\<close>) or it
  spawns (\<^term>\<open>Inr\<close>). \<^verbatim>\<open>aborted\<close> is \<^verbatim>\<open>abortSignal.aborted\<close>, \<^verbatim>\<open>now\<close> is \<^verbatim>\<open>Date.now()\<close> and
  \<^verbatim>\<open>tempFilePath\<close> the scratch file's path, built from random bytes and
  \<^verbatim>\<open>os.tmpdir()\<close>.
\<close>

definition execute_spawn ::
  "host \<Rightarrow> config \<Rightarrow> ShellTool \<Rightarrow> ShellToolParams \<Rightarrow> bool \<Rightarrow> int \<Rightarrow> string
     \<Rightarrow> ToolResult + SpawnCall" where
  "execute_spawn h cfg tool params aborted now tempFilePath =
     (case validateToolParams h cfg params of
        Some validationError \<Rightarrow>
          Inl \<lparr>llmContent = ''Command rejected: '' @ command params @ [CHR 0x0A]
                              @ ''Reason: '' @ validationError,
               returnDisplay = ''Error: '' @ validationError\<rparr>
      | None \<Rightarrow>
          if aborted
          then Inl \<lparr>llmContent = ''Command was cancelled by user before it could start.'',
                    returnDisplay = ''Command cancelled by user.''\<rparr>
          else
            let isSudoCommand = (\<not> isWindows h \<and> startsWith (trim (command params)) ''sudo '')
            in
            if isSudoCommand \<and> \<not> isPasswordCached tool now
            then Inl \<lparr>llmContent =
                        ''Sudo command rejected: password has not been provided or has expired.'',
                      returnDisplay = ''Error: Sudo password required.''\<rparr>
            else
              let commandToExecute =
                    (if isSudoCommand
                     then (case sudoPassword tool of
                             Some pw \<Rightarrow> sudoWrapped pw (command params)
                           | None \<Rightarrow> command params)
                     else command params);
                  dir = resolve h (getTargetDir cfg)
                          (case directory params of Some d \<Rightarrow> d | None \<Rightarrow> [])
              in
              if isWindows h
              then Inr \<lparr>spawnFile = ''cmd.exe'', spawnArgs = [''/c'', commandToExecute],
                        detached = False, cwd = dir\<rparr>
              else Inr \<lparr>spawnFile = ''bash'',
                        spawnArgs = [''-c'', pgrepWrapped commandToExecute tempFilePath],
                        detached = True, cwd = dir\<rparr>)"

section \<open>Running the process: the event handlers of \<^verbatim>\<open>ShellTool.execute\<close>\<close>

definition OUTPUT_UPDATE_INTERVAL_MS :: int where
  "OUTPUT_UPDATE_INTERVAL_MS = 1000"

text \<open>
  The variables the handlers close over, the tool's own fields among them
  (\<^verbatim>\<open>outputStr\<close> is the variable \<^verbatim>\<open>output\<close>). The abort listener only sends
  signals to the process group and changes none of them.
  \<^verbatim>\<open>updates\<close> records the calls of the \<^verbatim>\<open>updateOutput\<close> callback, oldest first.
  An \<^verbatim>\<open>Error\<close> object is kept by its message.
\<close>

record ExecState =
  exited :: bool
  stdout :: string
  stderr :: string
  outputStr :: string
  lastUpdateTime :: int
  error :: "string option"
  code :: "int option"
  processSignal :: "string option"
  shellTool :: ShellTool
  updates :: "string list"

text \<open>
  \<^verbatim>\<open>appendOutput\<close>; \<^verbatim>\<open>hasUpdateOutput\<close> says whether the optional callback was given.
  Both readings of the clock in one call are the same instant \<^verbatim>\<open>now\<close>.
\<close>

definition appendOutput :: "bool \<Rightarrow> string \<Rightarrow> int \<Rightarrow> ExecState \<Rightarrow> ExecState" where
  "appendOutput hasUpdateOutput str now s =
     (let s1 = s\<lparr>outputStr := outputStr s @ str\<rparr> in
      if hasUpdateOutput \<and> now - lastUpdateTime s1 > OUTPUT_UPDATE_INTERVAL_MS
      then s1\<lparr>updates := updates s1 @ [outputStr s1], lastUpdateTime := now\<rparr>
      else s1)"

definition sudoFailed :: "string \<Rightarrow> bool" where
  "sudoFailed str =
     (includesStr str ''sudo: a password is required'' \<or> includesStr str ''sudo: sorry, try again'')"

definition clearSudo :: "ExecState \<Rightarrow> ExecState" where
  "clearSudo s = s\<lparr>shellTool := (shellTool s)\<lparr>sudoPassword := None, sudoPasswordTimestamp := None\<rparr>\<rparr>"

text \<open>
  The \<^verbatim>\<open>'data'\<close> listeners of \<^verbatim>\<open>shell.stdout\<close> and \<^verbatim>\<open>shell.stderr\<close>; \<^verbatim>\<open>chunk\<close> is
  \<^verbatim>\<open>data.toString()\<close>.
\<close>

definition onStdoutData :: "host \<Rightarrow> bool \<Rightarrow> string \<Rightarrow> int \<Rightarrow> ExecState \<Rightarrow> ExecState" where
  "onStdoutData h hasUpdateOutput chunk now s =
     (if \<not> exited s
      then
        let str = stripAnsi h chunk;
            s1 = (if sudoFailed str then clearSudo s else s);
            s2 = s1\<lparr>stdout := stdout s1 @ str\<rparr>
        in appendOutput hasUpdateOutput str now s2
      else s)"

definition onStderrData :: "host \<Rightarrow> bool \<Rightarrow> string \<Rightarrow> int \<Rightarrow> ExecState \<Rightarrow> ExecState" where
  "onStderrData h hasUpdateOutput chunk now s =
     (if \<not> exited s
      then
        let str = stripAnsi h chunk;
            s1 = (if sudoFailed str then clearSudo s else s);
            s2 = s1\<lparr>stderr := stderr s1 @ str\<rparr>
        in appendOutput hasUpdateOutput str now s2
      else s)"

text \<open>
  The \<^verbatim>\<open>'error'\<close> listener: the wrapped command in the message is replaced by the
  command the caller gave.
\<close>

definition onError :: "string \<Rightarrow> ShellToolParams \<Rightarrow> string \<Rightarrow> ExecState \<Rightarrow> ExecState" where
  "onError wrapped params message s =
     s\<lparr>error := Some (replaceFirst message wrapped (command params))\<rparr>"

definition exitHandler :: "int option \<Rightarrow> string option \<Rightarrow> ExecState \<Rightarrow> ExecState" where
  "exitHandler c sig s = s\<lparr>exited := True, code := c, processSignal := sig\<rparr>"

datatype shell_event =
    StdoutData string int
  | StderrData string int
  | ErrorEvent string
  | ExitEvent "int option" "string option"

fun handleEvent ::
  "host \<Rightarrow> bool \<Rightarrow> string \<Rightarrow> ShellToolParams \<Rightarrow> ExecState \<Rightarrow> shell_event \<Rightarrow> ExecState" where
  "handleEvent h cb wrapped params s (StdoutData chunk now) = onStdoutData h cb chunk now s"
| "handleEvent h cb wrapped params s (StderrData chunk now) = onStderrData h cb chunk now s"
| "handleEvent h cb wrapped params s (ErrorEvent message) = onError wrapped params message s"
| "handleEvent h cb wrapped params s (ExitEvent c sig) = exitHandler c sig s"

definition handleEvents ::
  "host \<Rightarrow> bool \<Rightarrow> string \<Rightarrow> ShellToolParams \<Rightarrow> ExecState \<Rightarrow> shell_event list \<Rightarrow> ExecState" where
  "handleEvents h cb wrapped params s evs = foldl (handleEvent h cb wrapped params) s evs"

text \<open>The state right after \<^verbatim>\<open>spawn\<close>, with the clock at \<^verbatim>\<open>now\<close>.\<close>

definition spawned :: "ShellTool \<Rightarrow> int \<Rightarrow> ExecState" where
  "spawned tool now =
     \<lparr>exited = False, stdout = [], stderr = [], outputStr = [], lastUpdateTime = now,
      error = None, code = None, processSignal = None, shellTool = tool, updates = []\<rparr>"

subsection \<open>The result\<close>

text \<open>A number in a template literal, for the integers the result shows.\<close>

function showNat :: "nat \<Rightarrow> string" where
  "showNat n =
     (if n < 10 then [''0123456789'' ! n]
      else showNat (n div 10) @ [''0123456789'' ! (n mod 10)])"
  by pat_completeness auto
termination
  by (relation "measure id") auto

definition showInt :: "int \<Rightarrow> string" where
  "showInt i = (if i < 0 then ''-'' @ showNat (nat (- i)) else showNat (nat i))"

fun joinWith :: "string \<Rightarrow> string list \<Rightarrow> string" where
  "joinWith sep [] = []"
| "joinWith sep [x] = x"
| "joinWith sep (x # y # ys) = x @ sep @ joinWith sep (y # ys)"

text \<open>
  The result built once the \<^verbatim>\<open>'exit'\<close> event has arrived. \<^verbatim>\<open>aborted\<close> is
  \<^verbatim>\<open>abortSignal.aborted\<close>, \<^verbatim>\<open>pid\<close> is \<^verbatim>\<open>shell.pid\<close>, \<^verbatim>\<open>backgroundPIDs\<close> what was read
  from the scratch file; \<^verbatim>\<open>errorString\<close> and \<^verbatim>\<open>getErrorMessage\<close> render an error
  object (the latter lives in a module that is not part of the sources at hand).
\<close>

definition orElse :: "string \<Rightarrow> string \<Rightarrow> string" where
  "orElse s d = (if s = [] then d else s)"

definition buildResult ::
  "config \<Rightarrow> (string \<Rightarrow> string) \<Rightarrow> (string \<Rightarrow> string) \<Rightarrow> ShellToolParams \<Rightarrow> bool
     \<Rightarrow> nat option \<Rightarrow> nat list \<Rightarrow> ExecState \<Rightarrow> ToolResult" where
  "buildResult cfg errorString getErrorMessage params aborted pid backgroundPIDs s =
     (let content =
            (if aborted
             then ''Command was cancelled by user before it could complete.'' @
                  (if trim (outputStr s) \<noteq> []
                   then '' Below is the output (on stdout and stderr) before it was cancelled:''
                        @ [CHR 0x0A] @ outputStr s
                   else '' There was no output before it was cancelled.'')
             else joinWith [CHR 0x0A]
                  [''Command: '' @ command params,
                   ''Directory: '' @ orElse (case directory params of Some d \<Rightarrow> d | None \<Rightarrow> [])
                                       ''(root)'',
                   ''Stdout: '' @ orElse (stdout s) ''(empty)'',
                   ''Stderr: '' @ orElse (stderr s) ''(empty)'',
                   ''Error: '' @ (case error s of Some e \<Rightarrow> errorString e | None \<Rightarrow> ''(none)''),
                   ''Exit Code: '' @ (case code s of Some c \<Rightarrow> showInt c | None \<Rightarrow> ''(none)''),
                   ''Signal: '' @ (case processSignal s of Some g \<Rightarrow> g | None \<Rightarrow> ''(none)''),
                   ''Background PIDs: '' @
                     (if backgroundPIDs \<noteq> [] then joinWith '', '' (map showNat backgroundPIDs)
                      else ''(none)''),
                   ''Process Group PGID: '' @ (case pid of Some p \<Rightarrow> showNat p | None \<Rightarrow> ''(none)'')]);
          display =
            (if getDebugMode cfg then content
             else if trim (outputStr s) \<noteq> [] then outputStr s
             else if aborted then ''Command cancelled by user.''
             else (case processSignal s of
                     Some g \<Rightarrow> (if g \<noteq> [] then ''Command terminated by signal: '' @ g
                                else (case error s of
                                        Some e \<Rightarrow> ''Command failed: '' @ getErrorMessage e
                                      | None \<Rightarrow>
                                          (case code s of
                                             Some c \<Rightarrow> (if c \<noteq> 0
                                                        then ''Command exited with code: '' @ showInt c
                                                        else [])
                                           | None \<Rightarrow> [])))
                   | None \<Rightarrow>
                       (case error s of
                          Some e \<Rightarrow> ''Command failed: '' @ getErrorMessage e
                        | None \<Rightarrow>
                            (case code s of
                               Some c \<Rightarrow> (if c \<noteq> 0
                                          then ''Command exited with code: '' @ showInt c
                                          else [])
                             | None \<Rightarrow> []))))
      in \<lparr>llmContent = content, returnDisplay = display\<rparr>)"

section \<open>The interactive shell: \<^verbatim>\<open>executeShellCommand\<close>\<close>

type_synonym byte = "8 word"

type_synonym buffer = "byte list"

record ShellExecutionResult =
  rawOutput :: buffer
  resultOutput :: string
  exitCode :: "int option"
  signal :: "string option"
  resultError :: "string option"
  aborted :: bool
  finalPwd :: "string option"

text \<open>The trailer that records the final working directory.\<close>

definition pwdWrapped :: "string \<Rightarrow> string \<Rightarrow> string" where
  "pwdWrapped commandToExecute pwdFilePath =
     (let cmd = (if \<not> endsWith (trim commandToExecute) ''&''
                 then commandToExecute @ '';'' else commandToExecute)
      in ''{ '' @ cmd @ '' }; __code=$?; pwd > '' @ [CHR 0x22] @ pwdFilePath @ [CHR 0x22] @ ''; exit $__code'')"

text \<open>
  \<^verbatim>\<open>executeShellCommand\<close> up to the \<^verbatim>\<open>spawn\<close> call. \<^verbatim>\<open>sudoPwd\<close> is the optional
  argument \<^verbatim>\<open>sudoPassword\<close> (the empty string is falsy), \<^verbatim>\<open>pwdFilePath\<close> the path of
  the scratch file.
\<close>

definition executeShellCommand_spawn ::
  "host \<Rightarrow> string \<Rightarrow> string \<Rightarrow> string option \<Rightarrow> string \<Rightarrow> ShellExecutionResult + SpawnCall" where
  "executeShellCommand_spawn h rawCommand dir sudoPwd pwdFilePath =
     (let isSudo = (\<not> isWindows h \<and> startsWith (trim rawCommand) ''sudo '');
          missing = (case sudoPwd of None \<Rightarrow> True | Some pw \<Rightarrow> pw = [])
      in
      if isSudo \<and> missing
      then Inl \<lparr>rawOutput = [],
                resultOutput = ''Error: sudo password required, but not provided or has expired.''
                  @ [CHR 0x0A] @ ''Run a sudo command through the AI first to cache the password.'',
                exitCode = Some 1, signal = None,
                resultError = Some ''Sudo password required.'',
                aborted = False, finalPwd = None\<rparr>
      else
        let commandToExecute =
              (if isSudo
               then (case sudoPwd of Some pw \<Rightarrow> sudoWrapped pw rawCommand | None \<Rightarrow> rawCommand)
               else rawCommand)
        in
        if isWindows h
        then Inr \<lparr>spawnFile = ''cmd.exe'', spawnArgs = [''/c'', commandToExecute],
                  detached = False, cwd = dir\<rparr>
        else Inr \<lparr>spawnFile = ''bash'',
                  spawnArgs = [''-c'', pwdWrapped commandToExecute pwdFilePath],
                  detached = True, cwd = dir\<rparr>)"

text \<open>
  The same function as \<^verbatim>\<open>packages/cli/src/ui/hooks/shellCommandProcessor.ts\<close> has
  it: the secret is written to the child's standard input, and the command line
  is \<^verbatim>\<open>'sudo -S ' + rawCommand.trim().substring(5)\<close>. The second component is what is
  written to \<^verbatim>\<open>child.stdin\<close>, if anything.
\<close>

definition pwdWrappedTrimmed :: "string \<Rightarrow> string \<Rightarrow> string" where
  "pwdWrappedTrimmed commandToExecute pwdFilePath =
     (let cmd0 = trim commandToExecute;
          cmd = (if \<not> endsWith cmd0 '';'' \<and> \<not> endsWith cmd0 ''&'' then cmd0 @ '';'' else cmd0)
      in ''{ '' @ cmd @ '' }; __code=$?; pwd > '' @ [CHR 0x22] @ pwdFilePath @ [CHR 0x22] @ ''; exit $__code'')"

definition executeShellCommand_piped ::
  "host \<Rightarrow> string \<Rightarrow> string \<Rightarrow> string option \<Rightarrow> string
     \<Rightarrow> ShellExecutionResult + (SpawnCall \<times> string option)" where
  "executeShellCommand_piped h rawCommand dir sudoPwd pwdFilePath =
     (let isSudo = (\<not> isWindows h \<and> startsWith (trim rawCommand) ''sudo '');
          missing = (case sudoPwd of None \<Rightarrow> True | Some pw \<Rightarrow> pw = [])
      in
      if isSudo \<and> missing
      then Inl \<lparr>rawOutput = [],
                resultOutput = ''Error: sudo password required, but not provided or has expired.''
                  @ [CHR 0x0A] @ ''Run a sudo command through the AI first to cache the password.'',
                exitCode = Some 1, signal = None,
                resultError = Some ''Sudo password required.'',
                aborted = False, finalPwd = None\<rparr>
      else
        let commandToExecute =
              (if isSudo then ''sudo -S '' @ drop 5 (trim rawCommand) else rawCommand);
            written =
              (if isSudo
               then (case sudoPwd of Some pw \<Rightarrow> Some (pw @ [CHR 0x0A]) | None \<Rightarrow> None)
               else None)
        in
        if isWindows h
        then Inr (\<lparr>spawnFile = ''cmd.exe'', spawnArgs = [''/c'', commandToExecute],
                   detached = False, cwd = dir\<rparr>, written)
        else Inr (\<lparr>spawnFile = ''bash'',
                   spawnArgs = [''-c'', pwdWrappedTrimmed commandToExecute pwdFilePath],
                   detached = True, cwd = dir\<rparr>, written))"

subsection \<open>Output handling\<close>

text \<open>
  \<^verbatim>\<open>isBinary\<close> and \<^verbatim>\<open>formatMemoryUsage\<close> come from utility modules that are not among
  the sources at hand, \<^verbatim>\<open>StringDecoder\<close> from the platform: they are parameters. A
  decoder is a state of type \<^typ>\<open>'d\<close>; \<^verbatim>\<open>write\<close> returns the decoded text and the
  next state.
\<close>

record 'd textDeps =
  isBinary :: "buffer \<Rightarrow> bool"
  formatMemoryUsage :: "nat \<Rightarrow> string"
  decoderWrite :: "'d \<Rightarrow> buffer \<Rightarrow> string \<times> 'd"
  decoderEnd :: "'d \<Rightarrow> string"

datatype stream = Stdout | Stderr

text \<open>
  The variables of one run. \<^verbatim>\<open>sent\<close> records the calls of \<^verbatim>\<open>onOutputChunk\<close>, oldest
  first; \<^verbatim>\<open>resolved\<close> is the value the promise was resolved with, if it was.
\<close>

record 'd ShellRun =
  outputChunks :: "buffer list"
  runStdout :: string
  runStderr :: string
  stdoutDecoder :: 'd
  stderrDecoder :: 'd
  runError :: "string option"
  runExited :: bool
  streamToUi :: bool
  sniffedBytes :: nat
  sent :: "string list"
  resolved :: "ShellExecutionResult option"

definition MAX_SNIFF_SIZE :: nat where
  "MAX_SNIFF_SIZE = 4096"

text \<open>\<^verbatim>\<open>stdout + (stderr ? `\n${stderr}` : '')\<close>\<close>

definition combinedOutput :: "string \<Rightarrow> string \<Rightarrow> string" where
  "combinedOutput out err = out @ (if err \<noteq> [] then [CHR 0x0A] @ err else [])"

definition progressNotice :: "'d textDeps \<Rightarrow> nat \<Rightarrow> string" where
  "progressNotice deps totalBytes =
     ''[Receiving binary output... '' @ formatMemoryUsage deps totalBytes @ '' received]''"

definition sniff :: "'d textDeps \<Rightarrow> 'd ShellRun \<Rightarrow> 'd ShellRun" where
  "sniff deps s =
     (if streamToUi s \<and> sniffedBytes s < MAX_SNIFF_SIZE
      then
        let sniffBuffer = concat (take 20 (outputChunks s));
            s1 = s\<lparr>sniffedBytes := length sniffBuffer\<rparr>
        in
        if isBinary deps sniffBuffer
        then s1\<lparr>streamToUi := False,
                sent := sent s1 @ [''[Binary output detected. Halting stream...]'']\<rparr>
        else s1
      else s)"

definition decode :: "host \<Rightarrow> 'd textDeps \<Rightarrow> buffer \<Rightarrow> stream \<Rightarrow> 'd ShellRun \<Rightarrow> 'd ShellRun" where
  "decode h deps data str s =
     (case str of
        Stdout \<Rightarrow>
          (let (decodedChunk, d) = decoderWrite deps (stdoutDecoder s) data
           in s\<lparr>stdoutDecoder := d, runStdout := runStdout s @ stripAnsi h decodedChunk\<rparr>)
      | Stderr \<Rightarrow>
          (let (decodedChunk, d) = decoderWrite deps (stderrDecoder s) data
           in s\<lparr>stderrDecoder := d, runStderr := runStderr s @ stripAnsi h decodedChunk\<rparr>))"

text \<open>\<^verbatim>\<open>outputChunks.reduce((sum, chunk) => sum + chunk.length, 0)\<close>\<close>

definition totalBytes :: "buffer list \<Rightarrow> nat" where
  "totalBytes chunks = foldl (\<lambda>sum chunk. sum + length chunk) 0 chunks"

definition notify :: "'d textDeps \<Rightarrow> 'd ShellRun \<Rightarrow> 'd ShellRun" where
  "notify deps s =
     (if \<not> runExited s \<and> streamToUi s
      then s\<lparr>sent := sent s @ [combinedOutput (runStdout s) (runStderr s)]\<rparr>
      else if \<not> runExited s \<and> \<not> streamToUi s
      then s\<lparr>sent := sent s @ [progressNotice deps (totalBytes (outputChunks s))]\<rparr>
      else s)"

text \<open>\<^verbatim>\<open>handleOutput\<close>, in the order of its statements.\<close>

definition handleOutput ::
  "host \<Rightarrow> 'd textDeps \<Rightarrow> 'd ShellRun \<Rightarrow> buffer \<times> stream \<Rightarrow> 'd ShellRun" where
  "handleOutput h deps s ev =
     (let (data, str) = ev;
          s1 = s\<lparr>outputChunks := outputChunks s @ [data]\<rparr>;
          s2 = sniff deps s1;
          s3 = decode h deps data str s2
      in notify deps s3)"

text \<open>
  The \<^verbatim>\<open>'exit'\<close> listener. \<^verbatim>\<open>isAborted\<close> is \<^verbatim>\<open>abortSignal.aborted\<close> at that moment;
  \<^verbatim>\<open>pwdFile\<close> is the content of the scratch file when \<^verbatim>\<open>pwdFilePath\<close> is set and the
  file exists. A promise keeps the first value it is resolved with.
\<close>

definition onExit ::
  "'d textDeps \<Rightarrow> int option \<Rightarrow> string option \<Rightarrow> bool \<Rightarrow> string option \<Rightarrow> 'd ShellRun
     \<Rightarrow> 'd ShellRun" where
  "onExit deps c sig isAborted pwdFile s =
     (let s1 = s\<lparr>runExited := True\<rparr>;
          s2 = s1\<lparr>runStdout := runStdout s1 @ decoderEnd deps (stdoutDecoder s1)\<rparr>;
          s3 = s2\<lparr>runStderr := runStderr s2 @ decoderEnd deps (stderrDecoder s2)\<rparr>;
          finalBuffer = concat (outputChunks s3);
          res = \<lparr>rawOutput = finalBuffer,
                 resultOutput = combinedOutput (runStdout s3) (runStderr s3),
                 exitCode = c, signal = sig, resultError = runError s3,
                 aborted = isAborted, finalPwd = map_option trim pwdFile\<rparr>
      in s3\<lparr>resolved := (case resolved s3 of None \<Rightarrow> Some res | Some r \<Rightarrow> Some r)\<rparr>)"

text \<open>The \<^verbatim>\<open>'error'\<close> listener.\<close>

definition onRunError :: "string \<Rightarrow> 'd ShellRun \<Rightarrow> 'd ShellRun" where
  "onRunError message s = s\<lparr>runError := Some message\<rparr>"

text \<open>The state right after \<^verbatim>\<open>spawn\<close>; \<^verbatim>\<open>d0\<close> is a fresh decoder.\<close>

definition started :: "'d \<Rightarrow> 'd ShellRun" where
  "started d0 =
     \<lparr>outputChunks = [], runStdout = [], runStderr = [], stdoutDecoder = d0,
      stderrDecoder = d0, runError = None, runExited = False, streamToUi = True,
      sniffedBytes = 0, sent = [], resolved = None\<rparr>"

text \<open>A run of \<^verbatim>\<open>'data'\<close> events, in the order of their arrival.\<close>

definition handleOutputs ::
  "host \<Rightarrow> 'd textDeps \<Rightarrow> 'd ShellRun \<Rightarrow> (buffer \<times> stream) list \<Rightarrow> 'd ShellRun" where
  "handleOutputs h deps s evs = foldl (handleOutput h deps) s evs"

text \<open>
  The text one stream has accumulated after its chunks: \<^verbatim>\<open>handleOutput\<close> decodes
  each chunk with the decoder of its stream, strips it and appends it
  (\<^verbatim>\<open>stdout += stripAnsi(decodedChunk)\<close>). \<^verbatim>\<open>chunksOf\<close> picks the chunks of one stream
  from the data events.
\<close>

fun decodeFrom :: "host \<Rightarrow> 'd textDeps \<Rightarrow> 'd \<Rightarrow> buffer list \<Rightarrow> string" where
  "decodeFrom h deps d [] = []"
| "decodeFrom h deps d (data # rest) =
     (let (decodedChunk, d') = decoderWrite deps d data
      in stripAnsi h decodedChunk @ decodeFrom h deps d' rest)"

definition chunksOf :: "stream \<Rightarrow> (buffer \<times> stream) list \<Rightarrow> buffer list" where
  "chunksOf str evs = map fst (filter (\<lambda>ev. snd ev = str) evs)"

section \<open>Properties of the command gate\<close>


lemma set_newSet: "set (newSet xs) = set xs"
  by (induction xs) auto

lemma newSet_Nil_iff: "(newSet xs = []) = (xs = [])"
  by (cases xs) auto

lemma validateLoop_iff:
  "validateLoop bs as h w cmds \<longleftrightarrow>
     (\<forall>cmd \<in> set cmds.
        (\<forall>blocked \<in> set bs. \<not> isPrefixedBy cmd blocked) \<and>
        (h \<and> \<not> w \<longrightarrow> (\<exists>allowed \<in> set as. isPrefixedBy cmd allowed)))"
  by (induction cmds) (auto simp: list_ex_iff Let_def)

lemma isCommandAllowed_iff:
  "isCommandAllowed cfg cmd \<longleftrightarrow>
     \<not> includesStr cmd ''$('' \<and> \<not> includesStr cmd ''`'' \<and>
     (\<forall>name \<in> set SHELL_TOOL_NAMES. name \<notin> set (excludeToolsOf cfg)) \<and>
     (\<forall>cmd \<in> set (map normalize (splitCommands cmd)).
        (\<forall>blocked \<in> set (extractCommands (excludeToolsOf cfg)). \<not> isPrefixedBy cmd blocked) \<and>
        (extractCommands (coreToolsOf cfg) \<noteq> [] \<and>
         (\<forall>name \<in> set SHELL_TOOL_NAMES. name \<notin> set (coreToolsOf cfg)) \<longrightarrow>
           (\<exists>allowed \<in> set (extractCommands (coreToolsOf cfg)). isPrefixedBy cmd allowed)))"
  unfolding isCommandAllowed_def Let_def validateLoop_iff
  by (simp add: list_ex_iff set_newSet newSet_Nil_iff del: set_map)

lemma includesStr_iff: "includesStr s p \<longleftrightarrow> (\<exists>u v. s = u @ p @ v)"
proof (induction s)
  case Nil
  then show ?case by simp
next
  case (Cons c cs)
  have a: "startsWith (c # cs) p \<longleftrightarrow> (\<exists>v. c # cs = p @ v)"
    unfolding startsWith_def
    by (metis append_eq_conv_conj)
  show ?case
  proof
    assume "includesStr (c # cs) p"
    then consider "startsWith (c # cs) p" | "includesStr cs p" by auto
    then show "\<exists>u v. c # cs = u @ p @ v"
    proof cases
      case 1
      then obtain v where "c # cs = p @ v" using a by blast
      then have "c # cs = [] @ p @ v" by simp
      then show ?thesis by blast
    next
      case 2
      then obtain u v where "cs = u @ p @ v" using Cons.IH by blast
      then have "c # cs = (c # u) @ p @ v" by simp
      then show ?thesis by blast
    qed
  next
    assume "\<exists>u v. c # cs = u @ p @ v"
    then obtain u v where uv: "c # cs = u @ p @ v" by blast
    show "includesStr (c # cs) p"
    proof (cases u)
      case Nil
      then have "startsWith (c # cs) p" using uv a by auto
      then show ?thesis by simp
    next
      case (Cons d u')
      then have "cs = u' @ p @ v" using uv by simp
      then show ?thesis using Cons.IH by auto
    qed
  qed
qed



lemma includesStr_Cons: "includesStr cs p \<Longrightarrow> includesStr (c # cs) p"
  by simp

lemma splitCommands_no_separator:
  "\<not> includesStr s ''&&'' \<Longrightarrow> \<not> includesStr s ''|'' \<Longrightarrow> \<not> includesStr s '';'' \<Longrightarrow>
     splitCommands s = [s]"
proof (induction s rule: splitCommands.induct)
  case 1
  then show ?case by simp
next
  case (2 c)
  then show ?case by (auto simp: startsWith_def)
next
  case (3 c d cs)
  from "3.prems" have c: "c \<noteq> CHR ''|''" "c \<noteq> CHR '';''" "\<not> (c = CHR ''&'' \<and> d = CHR ''&'')"
    by (auto simp: startsWith_def)
  from "3.prems" have rest: "\<not> includesStr (d # cs) ''&&''" "\<not> includesStr (d # cs) ''|''"
    "\<not> includesStr (d # cs) '';''"
    by auto
  have "splitCommands (d # cs) = [d # cs]"
    using "3.IH"(5) c rest by blast
  then show ?case using c by (auto simp: consHead_def)
qed

lemma dropWhile_collapse:
  "z = [] \<or> \<not> isSpace (hd z) \<Longrightarrow> dropWhile isSpace (collapse z) = collapse z"
  by (cases z) auto

lemma dropWhile_start: "dropWhile isSpace cs = [] \<or> \<not> isSpace (hd (dropWhile isSpace cs))"
  using hd_dropWhile by blast

lemma collapse_idem: "collapse (collapse x) = collapse x"
proof (induction x rule: collapse.induct)
  case 1
  then show ?case by simp
next
  case (2 c cs)
  show ?case
  proof (cases "isSpace c")
    case True
    have sp: "isSpace (CHR '' '')" by (simp add: isSpace_def)
    have "dropWhile isSpace (collapse (dropWhile isSpace cs)) = collapse (dropWhile isSpace cs)"
      using dropWhile_collapse dropWhile_start by blast
    then show ?thesis using True 2 sp by simp
  next
    case False
    then show ?thesis using 2 by simp
  qed
qed

lemma collapse_append:
  "a \<noteq> [] \<Longrightarrow> \<not> isSpace (last a) \<Longrightarrow> collapse (a @ y) = collapse a @ collapse y"
proof (induction a rule: collapse.induct)
  case 1
  then show ?case by simp
next
  case (2 c cs)
  show ?case
  proof (cases "isSpace c")
    case True
    with "2.prems" have cs: "cs \<noteq> []" "\<not> isSpace (last cs)" by (auto split: if_splits)
    then have ex: "last cs \<in> set cs" by simp
    have dw: "dropWhile isSpace (cs @ y) = dropWhile isSpace cs @ y"
      using dropWhile_append1[of "last cs" cs isSpace y] ex cs(2) by simp
    have ne: "dropWhile isSpace cs \<noteq> []"
      using ex cs(2) by (metis dropWhile_eq_Nil_conv)
    have "last (dropWhile isSpace cs) = last cs"
      using ne by (metis last_appendR takeWhile_dropWhile_id)
    then have "collapse (dropWhile isSpace cs @ y) = collapse (dropWhile isSpace cs) @ collapse y"
      using "2.IH"(1)[OF True ne] cs(2) by simp
    then show ?thesis using True dw by simp
  next
    case False
    show ?thesis
    proof (cases cs)
      case Nil
      then show ?thesis using False by simp
    next
      case (Cons d ds)
      then have "collapse (cs @ y) = collapse cs @ collapse y"
        using "2.IH"(2)[OF False] "2.prems" by simp
      then show ?thesis using False by simp
    qed
  qed
qed

lemma collapse_last:
  "z \<noteq> [] \<Longrightarrow> \<not> isSpace (last z) \<Longrightarrow> collapse z \<noteq> [] \<and> last (collapse z) = last z"
proof (induction z rule: collapse.induct)
  case 1
  then show ?case by simp
next
  case (2 c cs)
  show ?case
  proof (cases "isSpace c")
    case True
    with "2.prems" have cs: "cs \<noteq> []" "\<not> isSpace (last cs)" by (auto split: if_splits)
    then have ex: "last cs \<in> set cs" by simp
    have ne: "dropWhile isSpace cs \<noteq> []"
      using ex cs(2) by (metis dropWhile_eq_Nil_conv)
    have l: "last (dropWhile isSpace cs) = last cs"
      using ne by (metis last_appendR takeWhile_dropWhile_id)
    have "collapse (dropWhile isSpace cs) \<noteq> [] \<and> last (collapse (dropWhile isSpace cs)) = last cs"
      using "2.IH"(1)[OF True ne] cs(2) l by simp
    then show ?thesis using True cs by simp
  next
    case False
    show ?thesis
    proof (cases cs)
      case Nil
      then show ?thesis using False by simp
    next
      case (Cons d ds)
      then have "collapse cs \<noteq> [] \<and> last (collapse cs) = last cs"
        using "2.IH"(2)[OF False] "2.prems" by simp
      then show ?thesis using False Cons by simp
    qed
  qed
qed

lemma trim_hd: "trim r \<noteq> [] \<Longrightarrow> \<not> isSpace (hd (trim r))"
proof -
  assume ne: "trim r \<noteq> []"
  let ?d = "dropWhile isSpace r"
  have "rev ?d = takeWhile isSpace (rev ?d) @ dropWhile isSpace (rev ?d)" by simp
  then have "?d = trim r @ rev (takeWhile isSpace (rev ?d))"
    unfolding trim_def by (metis rev_append rev_rev_ident)
  then have hd: "hd ?d = hd (trim r)" and "?d \<noteq> []" using ne by (metis hd_append2, metis append_is_Nil_conv)
  then show ?thesis using hd_dropWhile by metis
qed

lemma trim_last: "trim r \<noteq> [] \<Longrightarrow> \<not> isSpace (last (trim r))"
  unfolding trim_def by (metis hd_dropWhile last_rev rev_is_Nil_conv)

lemma normalize_shape:
  assumes "normalize r \<noteq> []"
  shows "\<not> isSpace (hd (normalize r))" "\<not> isSpace (last (normalize r))"
    "collapse (normalize r) = normalize r"
proof -
  have t: "trim r \<noteq> []" using assms unfolding normalize_def by auto
  obtain c cs where tc: "trim r = c # cs" using t by (cases "trim r") auto
  have "\<not> isSpace c" using trim_hd[OF t] tc by simp
  then show "\<not> isSpace (hd (normalize r))" unfolding normalize_def tc by simp
  show "\<not> isSpace (last (normalize r))"
    unfolding normalize_def using collapse_last[OF t trim_last[OF t]] trim_last[OF t] by simp
  show "collapse (normalize r) = normalize r"
    unfolding normalize_def by (rule collapse_idem)
qed

lemma normalize_amp:
  assumes a: "a = normalize r" and ne: "a \<noteq> []"
  shows "\<exists>w. normalize (a @ '' & '' @ s) = a @ CHR '' '' # w"
proof -
  have h: "\<not> isSpace (hd a)" and l: "\<not> isSpace (last a)" and c: "collapse a = a"
    using normalize_shape a ne by auto
  have amp: "\<not> isSpace (CHR ''&'')" and sp: "isSpace (CHR '' '')" by (simp_all add: isSpace_def)
  obtain x xs where ax: "a = x # xs" using ne by (cases a) auto
  have d1: "dropWhile isSpace (a @ '' & '' @ s) = a @ '' & '' @ s"
    using h ax by simp
  let ?u = "dropWhile isSpace (rev (CHR '' '' # s))"
  have "rev (a @ '' & '' @ s) = rev (CHR '' '' # s) @ CHR ''&'' # CHR '' '' # rev a"
    by simp
  then have "dropWhile isSpace (rev (a @ '' & '' @ s)) = ?u @ CHR ''&'' # CHR '' '' # rev a"
    using dropWhile_append3[of isSpace "CHR ''&''" "rev (CHR '' '' # s)" "CHR '' '' # rev a"] amp by simp
  then have t: "trim (a @ '' & '' @ s) = a @ CHR '' '' # CHR ''&'' # rev ?u"
    unfolding trim_def d1 by simp
  have "collapse (a @ CHR '' '' # CHR ''&'' # rev ?u) = collapse a @ collapse (CHR '' '' # CHR ''&'' # rev ?u)"
    using collapse_append[OF ne l] .
  then have "normalize (a @ '' & '' @ s) = a @ CHR '' '' # collapse (dropWhile isSpace (CHR ''&'' # rev ?u))"
    unfolding normalize_def t using c sp by simp
  then show ?thesis by blast
qed

lemma isPrefixedBy_amp:
  assumes "a = normalize r" "a \<noteq> []"
  shows "isPrefixedBy (normalize (a @ '' & '' @ s)) a"
proof -
  obtain w where "normalize (a @ '' & '' @ s) = a @ CHR '' '' # w"
    using normalize_amp[OF assms] by blast
  then show ?thesis by (simp add: isPrefixedBy_def startsWith_def)
qed

lemma extractCommands_normal:
  "a \<in> set (extractCommands tools) \<Longrightarrow> \<exists>r. a = normalize r"
  unfolding extractCommands_def SHELL_TOOL_NAMES_def
  by (auto split: if_splits)



subsection \<open>The policy of the gate\<close>



text \<open>
  Claim C3. A command that contains \<^verbatim>\<open>$(\<close> or a backtick is not allowed, whatever
  the allow and deny lists hold: validation fails with the message of the gate
  and no confirmation is shown.
\<close>

theorem substitution_rejected:
  "cmd = u @ ''$('' @ v \<or> cmd = u @ ''`'' @ v \<Longrightarrow>
     \<not> isCommandAllowed cfg cmd \<and>
     validateToolParams h cfg \<lparr>command = cmd, description = descr, directory = dir\<rparr>
       = Some (''Command is not allowed: '' @ cmd) \<and>
     shouldConfirmExecute h cfg tool \<lparr>command = cmd, description = descr, directory = dir\<rparr> now = None"
proof -
  assume "cmd = u @ ''$('' @ v \<or> cmd = u @ ''`'' @ v"
  then have "includesStr cmd ''$('' \<or> includesStr cmd ''`''"
    unfolding includesStr_iff by blast
  then have "\<not> isCommandAllowed cfg cmd"
    by (simp add: isCommandAllowed_def)
  then show ?thesis
    by (simp add: validateToolParams_def shouldConfirmExecute_def)
qed

theorem substitution_rejected_witness:
  "\<not> isCommandAllowed
       \<lparr>getCoreTools = Some [''run_shell_command'', ''run_shell_command(echo)''],
        getExcludeTools = None, getTargetDir = ''/work'', getDebugMode = False\<rparr>
       ''echo $(whoami)''"
proof -
  have "''echo $(whoami)'' = ''echo '' @ ''$('' @ ''whoami)''" by simp
  then show ?thesis
    using substitution_rejected [of "''echo $(whoami)''" "''echo ''" "''whoami)''"] by blast
qed




subsection \<open>A single ampersand\<close>

text \<open>
  Claim C8, as amended. A single \<^verbatim>\<open>&\<close> is no separator: for a non-empty allow entry
  \<^verbatim>\<open>a\<close> and any text \<^verbatim>\<open>s\<close>, if the command \<^verbatim>\<open>a & s\<close> holds none of \<^verbatim>\<open>$(\<close>, a backtick,
  \<^verbatim>\<open>&&\<close>, \<^verbatim>\<open>|\<close> and \<^verbatim>\<open>;\<close>, the tool is not excluded as a whole and the normalized
  command is not prefixed by a deny entry, then the command is one sub-command
  and the gate accepts it, whatever \<^verbatim>\<open>s\<close> is.
\<close>

theorem ampersand_not_separator:
  assumes entry: "a \<in> set (extractCommands (coreToolsOf cfg))"
    and nonempty: "a \<noteq> []"
    and clean: "\<not> includesStr (a @ '' & '' @ s) ''$(''" "\<not> includesStr (a @ '' & '' @ s) ''`''"
      "\<not> includesStr (a @ '' & '' @ s) ''&&''" "\<not> includesStr (a @ '' & '' @ s) ''|''"
      "\<not> includesStr (a @ '' & '' @ s) '';''"
    and not_excluded: "\<forall>name \<in> set SHELL_TOOL_NAMES. name \<notin> set (excludeToolsOf cfg)"
    and not_denied: "\<forall>blocked \<in> set (extractCommands (excludeToolsOf cfg)).
                       \<not> isPrefixedBy (normalize (a @ '' & '' @ s)) blocked"
  shows "splitCommands (a @ '' & '' @ s) = [a @ '' & '' @ s] \<and> isCommandAllowed cfg (a @ '' & '' @ s)"
proof -
  have split: "splitCommands (a @ '' & '' @ s) = [a @ '' & '' @ s]"
    using splitCommands_no_separator clean by blast
  obtain r where "a = normalize r"
    using extractCommands_normal entry by blast
  then have allowed: "isPrefixedBy (normalize (a @ '' & '' @ s)) a"
    using isPrefixedBy_amp nonempty by blast
  have "isCommandAllowed cfg (a @ '' & '' @ s)"
    unfolding isCommandAllowed_iff split
    using clean entry allowed not_excluded not_denied by auto
  then show ?thesis using split by simp
qed

theorem ampersand_not_separator_witness:
  "isCommandAllowed
     \<lparr>getCoreTools = Some [''run_shell_command(git status)''],
      getExcludeTools = Some [''run_shell_command(rm)''],
      getTargetDir = ''/work'', getDebugMode = False\<rparr> (''git status'' @ '' & '' @ ''rm -rf /'')"
proof -
  let ?cfg = "\<lparr>getCoreTools = Some [''run_shell_command(git status)''],
      getExcludeTools = Some [''run_shell_command(rm)''],
      getTargetDir = ''/work'', getDebugMode = False\<rparr>"
  have a: "extractCommands (coreToolsOf ?cfg) = [''git status'']" by code_simp
  have d: "extractCommands (excludeToolsOf ?cfg) = [''rm'']" by code_simp
  have x: "excludeToolsOf ?cfg = [''run_shell_command(rm)'']" by code_simp
  have n: "SHELL_TOOL_NAMES = [''ShellTool'', ''run_shell_command'']" by code_simp
  have c: "\<not> includesStr (''git status'' @ '' & '' @ ''rm -rf /'') ''$(''"
    "\<not> includesStr (''git status'' @ '' & '' @ ''rm -rf /'') ''`''"
    "\<not> includesStr (''git status'' @ '' & '' @ ''rm -rf /'') ''&&''"
    "\<not> includesStr (''git status'' @ '' & '' @ ''rm -rf /'') ''|''"
    "\<not> includesStr (''git status'' @ '' & '' @ ''rm -rf /'') '';''"
    by code_simp+
  have p: "\<not> isPrefixedBy (normalize (''git status'' @ '' & '' @ ''rm -rf /'')) ''rm''"
    by code_simp
  have 1: "''git status'' \<in> set (extractCommands (coreToolsOf ?cfg))" unfolding a by simp
  have 2: "\<forall>name \<in> set SHELL_TOOL_NAMES. name \<notin> set (excludeToolsOf ?cfg)"
    unfolding x n by simp
  have 3: "\<forall>blocked \<in> set (extractCommands (excludeToolsOf ?cfg)).
             \<not> isPrefixedBy (normalize (''git status'' @ '' & '' @ ''rm -rf /'')) blocked"
    unfolding d using p by simp
  show ?thesis
    using ampersand_not_separator [OF 1 _ c 2 3] by simp
qed

text \<open>
  The claim as first stated fails for the empty allow entry, which
  \<^verbatim>\<open>run_shell_command()\<close> contributes: the command \<^verbatim>\<open> & ls\<close> is rejected. It also fails
  when the tool is excluded as a whole, where no scoped deny entry exists.
\<close>

theorem ampersand_empty_entry_counterexample:
  "[] \<in> set (extractCommands (coreToolsOf
       \<lparr>getCoreTools = Some [''run_shell_command()''], getExcludeTools = None,
        getTargetDir = ''/work'', getDebugMode = False\<rparr>)) \<and>
   \<not> list_ex (\<lambda>name. name \<in> set [''run_shell_command()'']) SHELL_TOOL_NAMES \<and>
   extractCommands (excludeToolsOf
       \<lparr>getCoreTools = Some [''run_shell_command()''], getExcludeTools = None,
        getTargetDir = ''/work'', getDebugMode = False\<rparr>) = [] \<and>
   \<not> includesStr ([] @ '' & '' @ ''ls'') ''$('' \<and>
   \<not> includesStr ([] @ '' & '' @ ''ls'') ''`'' \<and>
   \<not> includesStr ([] @ '' & '' @ ''ls'') ''&&'' \<and>
   \<not> includesStr ([] @ '' & '' @ ''ls'') ''||'' \<and>
   \<not> includesStr ([] @ '' & '' @ ''ls'') ''|'' \<and>
   \<not> includesStr ([] @ '' & '' @ ''ls'') '';'' \<and>
   \<not> isCommandAllowed
       \<lparr>getCoreTools = Some [''run_shell_command()''], getExcludeTools = None,
        getTargetDir = ''/work'', getDebugMode = False\<rparr> ([] @ '' & '' @ ''ls'') \<and>
   ''git status'' \<in> set (extractCommands (coreToolsOf
       \<lparr>getCoreTools = Some [''run_shell_command(git status)''],
        getExcludeTools = Some [''run_shell_command''],
        getTargetDir = ''/work'', getDebugMode = False\<rparr>)) \<and>
   extractCommands (excludeToolsOf
       \<lparr>getCoreTools = Some [''run_shell_command(git status)''],
        getExcludeTools = Some [''run_shell_command''],
        getTargetDir = ''/work'', getDebugMode = False\<rparr>) = [] \<and>
   \<not> isCommandAllowed
       \<lparr>getCoreTools = Some [''run_shell_command(git status)''],
        getExcludeTools = Some [''run_shell_command''],
        getTargetDir = ''/work'', getDebugMode = False\<rparr> (''git status'' @ '' & '' @ ''ls'')"
  by code_simp



section \<open>Properties of the credential cache\<close>

lemma isPasswordCached_iff:
  "isPasswordCached tool now \<longleftrightarrow>
     (\<exists>pw ts. sudoPassword tool = Some pw \<and> pw \<noteq> [] \<and> sudoPasswordTimestamp tool = Some ts \<and>
        ts \<noteq> 0 \<and> now - ts < 15 * 60 * 1000)"
  by (auto simp: isPasswordCached_def SUDO_CACHE_DURATION_MS_def split: option.splits)

text \<open>
  Claim C4, as amended. For a sudo command on a POSIX platform that has passed
  validation: a cached non-empty secret with a non-zero time stamp and an age
  below 15 minutes means no password confirmation; no secret, an empty secret,
  no time stamp, the time stamp 0 or an age of 15 minutes or more means the
  secret counts as absent (\<^verbatim>\<open>execute\<close> rejects the command) and a password
  confirmation is returned whose \<^verbatim>\<open>onConfirm\<close> stores the secret with the time of the
  call, after which it is cached again. The cache of the interactive shell,
  \<^verbatim>\<open>getPassword\<close>, hands out the secret under the same condition.
\<close>

theorem sudo_prompt:
  assumes valid: "validateToolParams h cfg params = None"
    and sudo: "startsWith (trim (command params)) ''sudo ''"
    and posix: "\<not> isWindows h"
  shows
    "(sudoPassword tool = Some pw \<and> pw \<noteq> [] \<and> sudoPasswordTimestamp tool = Some ts \<and> ts \<noteq> 0 \<and>
      now - ts < 15 * 60 * 1000 \<longrightarrow>
        (\<forall>title root f. shouldConfirmExecute h cfg tool params now
           \<noteq> Some (PasswordDetails title root f))) \<and>
     (sudoPassword tool = None \<or> sudoPassword tool = Some [] \<or> sudoPasswordTimestamp tool = None \<or>
      sudoPasswordTimestamp tool = Some 0 \<or>
      (sudoPasswordTimestamp tool = Some ts \<and> 15 * 60 * 1000 \<le> now - ts) \<longrightarrow>
        (\<exists>f. shouldConfirmExecute h cfg tool params now
               = Some (PasswordDetails ''Sudo Password Required'' ''sudo'' f) \<and>
             (\<forall>secret now' t. f secret now' t
                = t\<lparr>sudoPassword := Some secret, sudoPasswordTimestamp := Some now'\<rparr>) \<and>
             (\<forall>secret now' t later. secret \<noteq> [] \<and> now' \<noteq> 0 \<and> later - now' < 15 * 60 * 1000 \<longrightarrow>
                isPasswordCached (f secret now' t) later)) \<and>
        execute_spawn h cfg tool params False now tmp
          = Inl \<lparr>llmContent =
                   ''Sudo command rejected: password has not been provided or has expired.'',
                 returnDisplay = ''Error: Sudo password required.''\<rparr>) \<and>
     (password ctx = Some pw \<and> pw \<noteq> [] \<and> timestamp ctx = Some ts \<and> ts \<noteq> 0 \<and>
      now - ts < 15 * 60 * 1000 \<longrightarrow> fst (getPassword now ctx) = Some pw) \<and>
     (password ctx = None \<or> password ctx = Some [] \<or> timestamp ctx = None \<or>
      timestamp ctx = Some 0 \<or>
      (timestamp ctx = Some ts \<and> 15 * 60 * 1000 \<le> now - ts) \<longrightarrow>
        fst (getPassword now ctx) = None) \<and>
     fst (getPassword later (setPassword secret now ctx))
       = (if secret \<noteq> [] \<and> now \<noteq> 0 \<and> later - now < 15 * 60 * 1000 then Some secret else None)"
proof (intro conjI impI)
  assume "sudoPassword tool = Some pw \<and> pw \<noteq> [] \<and> sudoPasswordTimestamp tool = Some ts \<and> ts \<noteq> 0 \<and>
      now - ts < 15 * 60 * 1000"
  then have "isPasswordCached tool now" unfolding isPasswordCached_iff by blast
  then show "\<forall>title root f. shouldConfirmExecute h cfg tool params now
           \<noteq> Some (PasswordDetails title root f)"
    using valid by (simp add: shouldConfirmExecute_def Let_def)
next
  assume "sudoPassword tool = None \<or> sudoPassword tool = Some [] \<or> sudoPasswordTimestamp tool = None \<or>
      sudoPasswordTimestamp tool = Some 0 \<or>
      (sudoPasswordTimestamp tool = Some ts \<and> 15 * 60 * 1000 \<le> now - ts)"
  then have nc: "\<not> isPasswordCached tool now" unfolding isPasswordCached_iff by auto
  let ?f = "\<lambda>secret now' t. t\<lparr>sudoPassword := Some secret, sudoPasswordTimestamp := Some now'\<rparr>"
  have 1: "shouldConfirmExecute h cfg tool params now
             = Some (PasswordDetails ''Sudo Password Required'' ''sudo'' ?f)"
    using valid sudo posix nc by (simp add: shouldConfirmExecute_def Let_def)
  have 2: "\<forall>secret now' t later. secret \<noteq> [] \<and> now' \<noteq> 0 \<and> later - now' < 15 * 60 * 1000 \<longrightarrow>
                isPasswordCached (?f secret now' t) later"
    unfolding isPasswordCached_iff by simp
  show "\<exists>f. shouldConfirmExecute h cfg tool params now
               = Some (PasswordDetails ''Sudo Password Required'' ''sudo'' f) \<and>
             (\<forall>secret now' t. f secret now' t
                = t\<lparr>sudoPassword := Some secret, sudoPasswordTimestamp := Some now'\<rparr>) \<and>
             (\<forall>secret now' t later. secret \<noteq> [] \<and> now' \<noteq> 0 \<and> later - now' < 15 * 60 * 1000 \<longrightarrow>
                isPasswordCached (f secret now' t) later)"
    using 1 2 by blast
  show "execute_spawn h cfg tool params False now tmp
          = Inl \<lparr>llmContent =
                   ''Sudo command rejected: password has not been provided or has expired.'',
                 returnDisplay = ''Error: Sudo password required.''\<rparr>"
    using valid sudo posix nc by (simp add: execute_spawn_def Let_def)
next
  assume "password ctx = Some pw \<and> pw \<noteq> [] \<and> timestamp ctx = Some ts \<and> ts \<noteq> 0 \<and>
      now - ts < 15 * 60 * 1000"
  then show "fst (getPassword now ctx) = Some pw"
    by (simp add: getPassword_def SUDO_CACHE_DURATION_MS_def)
next
  assume "password ctx = None \<or> password ctx = Some [] \<or> timestamp ctx = None \<or>
      timestamp ctx = Some 0 \<or>
      (timestamp ctx = Some ts \<and> 15 * 60 * 1000 \<le> now - ts)"
  then show "fst (getPassword now ctx) = None"
    by (auto simp: getPassword_def SUDO_CACHE_DURATION_MS_def split: option.splits)
next
  show "fst (getPassword later (setPassword secret now ctx))
       = (if secret \<noteq> [] \<and> now \<noteq> 0 \<and> later - now < 15 * 60 * 1000 then Some secret else None)"
    by (simp add: getPassword_def setPassword_def SUDO_CACHE_DURATION_MS_def)
qed

theorem sudo_prompt_witness:
  "(\<exists>f. shouldConfirmExecute
          \<lparr>isWindows = False, schemaValidate = (\<lambda>p. True), isAbsolute = (\<lambda>p. False),
           resolve = (\<lambda>a b. a @ ''/'' @ b), existsSync = (\<lambda>p. True), stripAnsi = (\<lambda>x. x)\<rparr>
          \<lparr>getCoreTools = None, getExcludeTools = None, getTargetDir = ''/work'',
           getDebugMode = False\<rparr>
          \<lparr>whitelist = {}, sudoPassword = Some ''pw'', sudoPasswordTimestamp = Some 1000\<rparr>
          \<lparr>command = ''sudo ls'', description = None, directory = None\<rparr> 901000
        = Some (PasswordDetails ''Sudo Password Required'' ''sudo'' f)) \<and>
   (\<forall>title root f. shouldConfirmExecute
          \<lparr>isWindows = False, schemaValidate = (\<lambda>p. True), isAbsolute = (\<lambda>p. False),
           resolve = (\<lambda>a b. a @ ''/'' @ b), existsSync = (\<lambda>p. True), stripAnsi = (\<lambda>x. x)\<rparr>
          \<lparr>getCoreTools = None, getExcludeTools = None, getTargetDir = ''/work'',
           getDebugMode = False\<rparr>
          \<lparr>whitelist = {}, sudoPassword = Some ''pw'', sudoPasswordTimestamp = Some 1000\<rparr>
          \<lparr>command = ''sudo ls'', description = None, directory = None\<rparr> 900999
        \<noteq> Some (PasswordDetails title root f))"
proof -
  let ?h = "\<lparr>isWindows = False, schemaValidate = (\<lambda>p. True), isAbsolute = (\<lambda>p. False),
           resolve = (\<lambda>a b. a @ ''/'' @ b), existsSync = (\<lambda>p. True), stripAnsi = (\<lambda>x. x)\<rparr>"
  let ?cfg = "\<lparr>getCoreTools = None, getExcludeTools = None, getTargetDir = ''/work'',
           getDebugMode = False\<rparr>"
  let ?tool = "\<lparr>whitelist = {}, sudoPassword = Some ''pw'', sudoPasswordTimestamp = Some 1000\<rparr>"
  let ?p = "\<lparr>command = ''sudo ls'', description = None, directory = None\<rparr>"
  have a: "isCommandAllowed ?cfg ''sudo ls''" by code_simp
  have r: "getCommandRoot ''sudo ls'' = ''sudo''" by code_simp
  have t: "trim ''sudo ls'' = ''sudo ls''" by code_simp
  have v: "validateToolParams ?h ?cfg ?p = None"
    by (simp add: validateToolParams_def a r t)
  have s: "startsWith (trim (command ?p)) ''sudo ''" by (simp add: t startsWith_def)
  have w: "\<not> isWindows ?h" by simp
  note expired = conjunct1 [OF conjunct2 [OF sudo_prompt [OF v s w, where tool = ?tool
      and pw = "''pw''" and ts = 1000 and now = 901000]]]
  note fresh = conjunct1 [OF sudo_prompt [OF v s w, where tool = ?tool
      and pw = "''pw''" and ts = 1000 and now = 900999]]
  have old: "sudoPassword ?tool = None \<or> sudoPassword ?tool = Some [] \<or>
      sudoPasswordTimestamp ?tool = None \<or> sudoPasswordTimestamp ?tool = Some 0 \<or>
      (sudoPasswordTimestamp ?tool = Some 1000 \<and> (15 * 60 * 1000 :: int) \<le> 901000 - 1000)"
    by simp
  have young: "sudoPassword ?tool = Some ''pw'' \<and> ''pw'' \<noteq> [] \<and>
      sudoPasswordTimestamp ?tool = Some 1000 \<and> (1000 :: int) \<noteq> 0 \<and>
      (900999 :: int) - 1000 < 15 * 60 * 1000"
    by simp
  from mp [OF expired old] obtain f where
    "shouldConfirmExecute ?h ?cfg ?tool ?p 901000
       = Some (PasswordDetails ''Sudo Password Required'' ''sudo'' f)"
    by blast
  then show ?thesis using mp [OF fresh young] by blast
qed

text \<open>
  The claim as first stated fails in three ways: a sudo command that the gate
  rejects gets no confirmation at all, also when the cache is empty; an empty
  secret with a fresh time stamp is prompted for again; and so is a secret whose
  time stamp is 0, one millisecond later.
\<close>

theorem sudo_prompt_counterexample:
  "startsWith (trim ''sudo echo $(id)'') ''sudo '' \<and>
   shouldConfirmExecute
     \<lparr>isWindows = False, schemaValidate = (\<lambda>p. True), isAbsolute = (\<lambda>p. False),
      resolve = (\<lambda>a b. a @ ''/'' @ b), existsSync = (\<lambda>p. True), stripAnsi = (\<lambda>x. x)\<rparr>
     \<lparr>getCoreTools = None, getExcludeTools = None, getTargetDir = ''/work'',
      getDebugMode = False\<rparr>
     \<lparr>whitelist = {}, sudoPassword = None, sudoPasswordTimestamp = None\<rparr>
     \<lparr>command = ''sudo echo $(id)'', description = None, directory = None\<rparr> 1000
   = None \<and>
   validateToolParams
     \<lparr>isWindows = False, schemaValidate = (\<lambda>p. True), isAbsolute = (\<lambda>p. False),
      resolve = (\<lambda>a b. a @ ''/'' @ b), existsSync = (\<lambda>p. True), stripAnsi = (\<lambda>x. x)\<rparr>
     \<lparr>getCoreTools = None, getExcludeTools = None, getTargetDir = ''/work'',
      getDebugMode = False\<rparr>
     \<lparr>command = ''sudo ls'', description = None, directory = None\<rparr> = None \<and>
   startsWith (trim ''sudo ls'') ''sudo '' \<and>
   (\<exists>f. shouldConfirmExecute
     \<lparr>isWindows = False, schemaValidate = (\<lambda>p. True), isAbsolute = (\<lambda>p. False),
      resolve = (\<lambda>a b. a @ ''/'' @ b), existsSync = (\<lambda>p. True), stripAnsi = (\<lambda>x. x)\<rparr>
     \<lparr>getCoreTools = None, getExcludeTools = None, getTargetDir = ''/work'',
      getDebugMode = False\<rparr>
     \<lparr>whitelist = {}, sudoPassword = Some [], sudoPasswordTimestamp = Some 1000\<rparr>
     \<lparr>command = ''sudo ls'', description = None, directory = None\<rparr> 2000
   = Some (PasswordDetails ''Sudo Password Required'' ''sudo'' f)) \<and>
   (1 :: int) - 0 < 15 * 60 * 1000 \<and>
   (\<exists>f. shouldConfirmExecute
     \<lparr>isWindows = False, schemaValidate = (\<lambda>p. True), isAbsolute = (\<lambda>p. False),
      resolve = (\<lambda>a b. a @ ''/'' @ b), existsSync = (\<lambda>p. True), stripAnsi = (\<lambda>x. x)\<rparr>
     \<lparr>getCoreTools = None, getExcludeTools = None, getTargetDir = ''/work'',
      getDebugMode = False\<rparr>
     \<lparr>whitelist = {}, sudoPassword = Some ''pw'', sudoPasswordTimestamp = Some 0\<rparr>
     \<lparr>command = ''sudo ls'', description = None, directory = None\<rparr> 1
   = Some (PasswordDetails ''Sudo Password Required'' ''sudo'' f))"
proof -
  let ?h = "\<lparr>isWindows = False, schemaValidate = (\<lambda>p. True), isAbsolute = (\<lambda>p. False),
      resolve = (\<lambda>a b. a @ ''/'' @ b), existsSync = (\<lambda>p. True), stripAnsi = (\<lambda>x. x)\<rparr>"
  let ?cfg = "\<lparr>getCoreTools = None, getExcludeTools = None, getTargetDir = ''/work'',
      getDebugMode = False\<rparr>"
  have s: "startsWith (trim ''sudo echo $(id)'') ''sudo ''" by code_simp
  have a: "\<not> isCommandAllowed ?cfg ''sudo echo $(id)''" by code_simp
  have b: "isCommandAllowed ?cfg ''sudo ls''" by code_simp
  have r: "getCommandRoot ''sudo ls'' = ''sudo''" by code_simp
  have t: "trim ''sudo ls'' = ''sudo ls''" by code_simp
  have v: "validateToolParams ?h ?cfg \<lparr>command = ''sudo ls'', description = None, directory = None\<rparr>
             = None"
    by (simp add: validateToolParams_def b r t)
  have s2: "startsWith (trim ''sudo ls'') ''sudo ''" by (simp add: t startsWith_def)
  have 1: "shouldConfirmExecute ?h ?cfg
       \<lparr>whitelist = {}, sudoPassword = None, sudoPasswordTimestamp = None\<rparr>
       \<lparr>command = ''sudo echo $(id)'', description = None, directory = None\<rparr> 1000 = None"
    using a by (simp add: shouldConfirmExecute_def validateToolParams_def)
  have 2: "\<exists>f. shouldConfirmExecute ?h ?cfg
       \<lparr>whitelist = {}, sudoPassword = Some [], sudoPasswordTimestamp = Some 1000\<rparr>
       \<lparr>command = ''sudo ls'', description = None, directory = None\<rparr> 2000
     = Some (PasswordDetails ''Sudo Password Required'' ''sudo'' f)"
    using v s2 by (simp add: shouldConfirmExecute_def isPasswordCached_def Let_def)
  have 3: "\<exists>f. shouldConfirmExecute ?h ?cfg
       \<lparr>whitelist = {}, sudoPassword = Some ''pw'', sudoPasswordTimestamp = Some 0\<rparr>
       \<lparr>command = ''sudo ls'', description = None, directory = None\<rparr> 1
     = Some (PasswordDetails ''Sudo Password Required'' ''sudo'' f)"
    using v s2 by (simp add: shouldConfirmExecute_def isPasswordCached_def Let_def)
  have 4: "(1 :: int) - 0 < 15 * 60 * 1000" by simp
  show ?thesis
    by (intro conjI s 1 v s2 2 4 3)
qed

lemma handleEvent_cleared:
  "sudoPassword (shellTool s) = None \<and> sudoPasswordTimestamp (shellTool s) = None \<Longrightarrow>
     sudoPassword (shellTool (handleEvent h cb wrapped params s ev)) = None \<and>
     sudoPasswordTimestamp (shellTool (handleEvent h cb wrapped params s ev)) = None"
  by (cases ev)
     (auto simp: onStdoutData_def onStderrData_def onError_def exitHandler_def appendOutput_def
        clearSudo_def Let_def)

lemma handleEvents_cleared:
  "sudoPassword (shellTool s) = None \<and> sudoPasswordTimestamp (shellTool s) = None \<Longrightarrow>
     sudoPassword (shellTool (handleEvents h cb wrapped params s evs)) = None \<and>
     sudoPasswordTimestamp (shellTool (handleEvents h cb wrapped params s evs)) = None"
  unfolding handleEvents_def
proof (induction evs arbitrary: s)
  case Nil
  then show ?case by simp
next
  case (Cons ev evs)
  then show ?case using handleEvent_cleared by simp
qed

text \<open>
  Claim C5, as amended. When a chunk handled before the exit, on either stream, holds one of
  the two phrases of a failed sudo after decoding, the handler clears the secret
  and its time stamp: no later time finds the secret cached, and no later event
  of the run brings it back.
\<close>

theorem sudo_failure_invalidates:
  assumes running: "\<not> exited s"
    and phrase: "stripAnsi h chunk = u @ ''sudo: a password is required'' @ v
                 \<or> stripAnsi h chunk = u @ ''sudo: sorry, try again'' @ v"
    and next_state: "s' = onStdoutData h cb chunk now s \<or> s' = onStderrData h cb chunk now s"
  shows "sudoPassword (shellTool s') = None \<and> sudoPasswordTimestamp (shellTool s') = None \<and>
         (\<forall>t. \<not> isPasswordCached (shellTool s') t) \<and>
         (\<forall>evs t. \<not> isPasswordCached (shellTool (handleEvents h cb wrapped params s' evs)) t)"
proof -
  have "sudoFailed (stripAnsi h chunk)"
    unfolding sudoFailed_def includesStr_iff using phrase by blast
  then have c: "sudoPassword (shellTool s') = None \<and> sudoPasswordTimestamp (shellTool s') = None"
    using running next_state
    by (auto simp: onStdoutData_def onStderrData_def appendOutput_def clearSudo_def Let_def)
  then have "\<forall>evs. sudoPassword (shellTool (handleEvents h cb wrapped params s' evs)) = None"
    using handleEvents_cleared by blast
  then show ?thesis using c by (simp add: isPasswordCached_def)
qed

theorem sudo_failure_invalidates_witness:
  "\<not> isPasswordCached
       (shellTool (onStderrData
          \<lparr>isWindows = False, schemaValidate = (\<lambda>p. True), isAbsolute = (\<lambda>p. False),
           resolve = (\<lambda>a b. a @ ''/'' @ b), existsSync = (\<lambda>p. True), stripAnsi = (\<lambda>x. x)\<rparr>
          True ''sudo: sorry, try again'' 2000
          (spawned \<lparr>whitelist = {}, sudoPassword = Some ''pw'', sudoPasswordTimestamp = Some 1000\<rparr>
             1500)))
       2001 \<and>
   isPasswordCached \<lparr>whitelist = {}, sudoPassword = Some ''pw'', sudoPasswordTimestamp = Some 1000\<rparr>
       2001"
proof -
  let ?h = "\<lparr>isWindows = False, schemaValidate = (\<lambda>p. True), isAbsolute = (\<lambda>p. False),
           resolve = (\<lambda>a b. a @ ''/'' @ b), existsSync = (\<lambda>p. True), stripAnsi = (\<lambda>x. x)\<rparr>"
  let ?s = "spawned \<lparr>whitelist = {}, sudoPassword = Some ''pw'', sudoPasswordTimestamp = Some 1000\<rparr>
             1500"
  have r: "\<not> exited ?s" by (simp add: spawned_def)
  have p: "stripAnsi ?h ''sudo: sorry, try again'' = [] @ ''sudo: a password is required'' @ []
           \<or> stripAnsi ?h ''sudo: sorry, try again'' = [] @ ''sudo: sorry, try again'' @ []"
    by simp
  have c: "isPasswordCached \<lparr>whitelist = {}, sudoPassword = Some ''pw'',
             sudoPasswordTimestamp = Some 1000\<rparr> 2001"
    by (simp add: isPasswordCached_def SUDO_CACHE_DURATION_MS_def)
  show ?thesis
    using sudo_failure_invalidates [OF r p disjI2 [OF refl], where cb = True and now = 2000] c
    by blast
qed

text \<open>
  The claim as first stated fails after the exit: a chunk with the phrase that
  arrives once the exit handler has run is ignored, and the secret stays cached.
\<close>

theorem sudo_failure_after_exit_counterexample:
  "stripAnsi
     \<lparr>isWindows = False, schemaValidate = (\<lambda>p. True), isAbsolute = (\<lambda>p. False),
      resolve = (\<lambda>a b. a @ ''/'' @ b), existsSync = (\<lambda>p. True), stripAnsi = (\<lambda>x. x)\<rparr>
     ''sudo: sorry, try again'' = [] @ ''sudo: sorry, try again'' @ [] \<and>
   isPasswordCached
     (shellTool (onStderrData
        \<lparr>isWindows = False, schemaValidate = (\<lambda>p. True), isAbsolute = (\<lambda>p. False),
         resolve = (\<lambda>a b. a @ ''/'' @ b), existsSync = (\<lambda>p. True), stripAnsi = (\<lambda>x. x)\<rparr>
        True ''sudo: sorry, try again'' 2000
        (exitHandler (Some 1) None
           (spawned \<lparr>whitelist = {}, sudoPassword = Some ''pw'', sudoPasswordTimestamp = Some 1000\<rparr>
              1500))))
     2001 \<and>
   sudoPassword
     (shellTool (onStdoutData
        \<lparr>isWindows = False, schemaValidate = (\<lambda>p. True), isAbsolute = (\<lambda>p. False),
         resolve = (\<lambda>a b. a @ ''/'' @ b), existsSync = (\<lambda>p. True), stripAnsi = (\<lambda>x. x)\<rparr>
        True ''sudo: sorry, try again'' 2000
        (exitHandler (Some 1) None
           (spawned \<lparr>whitelist = {}, sudoPassword = Some ''pw'', sudoPasswordTimestamp = Some 1000\<rparr>
              1500))))
   = Some ''pw''"
  by (simp add: onStderrData_def onStdoutData_def exitHandler_def spawned_def isPasswordCached_def
      SUDO_CACHE_DURATION_MS_def)


section \<open>Properties of the event handlers\<close>

lemma handleEvent_exited:
  "exited s \<Longrightarrow>
     exited (handleEvent h cb wrapped params s ev) \<and>
     stdout (handleEvent h cb wrapped params s ev) = stdout s \<and>
     stderr (handleEvent h cb wrapped params s ev) = stderr s \<and>
     outputStr (handleEvent h cb wrapped params s ev) = outputStr s \<and>
     updates (handleEvent h cb wrapped params s ev) = updates s"
  by (cases ev) (auto simp: onStdoutData_def onStderrData_def onError_def exitHandler_def)

lemma handleEvents_exited:
  "exited s \<Longrightarrow>
     exited (handleEvents h cb wrapped params s evs) \<and>
     stdout (handleEvents h cb wrapped params s evs) = stdout s \<and>
     stderr (handleEvents h cb wrapped params s evs) = stderr s \<and>
     outputStr (handleEvents h cb wrapped params s evs) = outputStr s \<and>
     updates (handleEvents h cb wrapped params s evs) = updates s"
  unfolding handleEvents_def
proof (induction evs arbitrary: s)
  case Nil
  then show ?case by simp
next
  case (Cons ev evs)
  then show ?case using handleEvent_exited [of s h cb wrapped params ev] by simp
qed

lemma handleEvents_data_exited:
  "exited s \<Longrightarrow> \<forall>ev \<in> set evs. \<exists>chunk t. ev = StdoutData chunk t \<or> ev = StderrData chunk t \<Longrightarrow>
     handleEvents h cb wrapped params s evs = s"
  unfolding handleEvents_def
  by (induction evs) (auto simp: onStdoutData_def onStderrData_def)

text \<open>
  Claim C9. Once the exit handler has run, no further event changes the
  accumulated \<^verbatim>\<open>stdout\<close>, \<^verbatim>\<open>stderr\<close> and \<^verbatim>\<open>output\<close> strings or calls the live callback;
  a data handler leaves an exited state as it is, and the result built after late
  data events is the result built at the exit.
\<close>

theorem no_output_after_exit:
  "stdout (handleEvents h cb wrapped params (exitHandler c sig s) evs) = stdout s \<and>
   stderr (handleEvents h cb wrapped params (exitHandler c sig s) evs) = stderr s \<and>
   outputStr (handleEvents h cb wrapped params (exitHandler c sig s) evs) = outputStr s \<and>
   updates (handleEvents h cb wrapped params (exitHandler c sig s) evs) = updates s \<and>
   (exited s \<longrightarrow> onStdoutData h cb chunk now s = s \<and> onStderrData h cb chunk now s = s) \<and>
   ((\<forall>ev \<in> set evs. \<exists>chunk t. ev = StdoutData chunk t \<or> ev = StderrData chunk t) \<longrightarrow>
      buildResult cfg errorString getErrorMessage params isAborted pid pids
        (handleEvents h cb wrapped params (exitHandler c sig s) evs)
      = buildResult cfg errorString getErrorMessage params isAborted pid pids (exitHandler c sig s))"
proof -
  have e: "exited (exitHandler c sig s)" by (simp add: exitHandler_def)
  have f: "stdout (exitHandler c sig s) = stdout s" "stderr (exitHandler c sig s) = stderr s"
    "outputStr (exitHandler c sig s) = outputStr s" "updates (exitHandler c sig s) = updates s"
    by (simp_all add: exitHandler_def)
  show ?thesis
    using handleEvents_exited [OF e, of h cb wrapped params evs] f
      handleEvents_data_exited [OF e, of evs h cb wrapped params]
    by (auto simp: onStdoutData_def onStderrData_def)
qed

theorem no_output_after_exit_witness:
  "stdout (handleEvents
      \<lparr>isWindows = False, schemaValidate = (\<lambda>p. True), isAbsolute = (\<lambda>p. False),
       resolve = (\<lambda>a b. a @ ''/'' @ b), existsSync = (\<lambda>p. True), stripAnsi = (\<lambda>x. x)\<rparr>
      True ''{ sleep 1 & }'' \<lparr>command = ''sleep 1 &'', description = None, directory = None\<rparr>
      (spawned \<lparr>whitelist = {}, sudoPassword = None, sudoPasswordTimestamp = None\<rparr> 0)
      [StdoutData ''early'' 10, ExitEvent (Some 0) None, StdoutData ''late'' 20, StderrData ''later'' 30])
   = ''early''"
proof -
  let ?h = "\<lparr>isWindows = False, schemaValidate = (\<lambda>p. True), isAbsolute = (\<lambda>p. False),
       resolve = (\<lambda>a b. a @ ''/'' @ b), existsSync = (\<lambda>p. True), stripAnsi = (\<lambda>x. x)\<rparr>"
  let ?p = "\<lparr>command = ''sleep 1 &'', description = None, directory = None\<rparr>"
  let ?s0 = "spawned \<lparr>whitelist = {}, sudoPassword = None, sudoPasswordTimestamp = None\<rparr> 0"
  let ?s1 = "onStdoutData ?h True ''early'' 10 ?s0"
  have nf: "\<not> sudoFailed ''early''" by code_simp
  have 1: "stdout ?s1 = ''early''"
    by (simp add: onStdoutData_def spawned_def appendOutput_def nf Let_def)
  have 2: "handleEvents ?h True ''{ sleep 1 & }'' ?p ?s0
             [StdoutData ''early'' 10, ExitEvent (Some 0) None, StdoutData ''late'' 20,
              StderrData ''later'' 30]
           = handleEvents ?h True ''{ sleep 1 & }'' ?p (exitHandler (Some 0) None ?s1)
               [StdoutData ''late'' 20, StderrData ''later'' 30]"
    by (simp add: handleEvents_def)
  show ?thesis
    unfolding 2
    using no_output_after_exit [of ?h True "''{ sleep 1 & }''" ?p "Some 0" None ?s1
        "[StdoutData ''late'' 20, StderrData ''later'' 30]"] 1
    by simp
qed




section \<open>Properties of the spawn call\<close>

text \<open>
  Claim C1 asks that the secret of a sudo request reaches \<^verbatim>\<open>sudo\<close> on its standard
  input and never occurs in the argument vector of the \<^verbatim>\<open>spawn\<close> call. Both
  \<^verbatim>\<open>ShellTool.execute\<close> and \<^verbatim>\<open>executeShellCommand\<close> build the command
  \<^verbatim>\<open>echo '<secret>' | sudo -S -- ...\<close> and hand it to \<^verbatim>\<open>bash -c\<close>: for the cached secret
  \<^verbatim>\<open>hunter2\<close> and the command \<^verbatim>\<open>sudo ls\<close> the second argument of the call holds the
  secret. The variant of \<^verbatim>\<open>executeShellCommand\<close> that writes the secret to the child's
  standard input keeps it out of the arguments.
\<close>

theorem sudo_secret_in_argv_example:
  "execute_spawn
     \<lparr>isWindows = False, schemaValidate = (\<lambda>p. True), isAbsolute = (\<lambda>p. False),
      resolve = (\<lambda>a b. a @ ''/'' @ b), existsSync = (\<lambda>p. True), stripAnsi = (\<lambda>x. x)\<rparr>
     \<lparr>getCoreTools = None, getExcludeTools = None, getTargetDir = ''/work'',
      getDebugMode = False\<rparr>
     \<lparr>whitelist = {}, sudoPassword = Some ''hunter2'', sudoPasswordTimestamp = Some 1000\<rparr>
     \<lparr>command = ''sudo ls'', description = None, directory = None\<rparr>
     False 2000 ''/tmp/shell_pgrep_0a1b2c3d4e5f.tmp''
   = Inr \<lparr>spawnFile = ''bash'',
          spawnArgs = [''-c'',
            ''{ echo '' @ [CHR 0x27] @ ''hunter2'' @ [CHR 0x27] @
            '' | sudo -S -- ls; }; __code=$?; pgrep -g 0 >/tmp/shell_pgrep_0a1b2c3d4e5f.tmp 2>&1; exit $__code;''],
          detached = True, cwd = ''/work/''\<rparr> \<and>
   executeShellCommand_spawn
     \<lparr>isWindows = False, schemaValidate = (\<lambda>p. True), isAbsolute = (\<lambda>p. False),
      resolve = (\<lambda>a b. a @ ''/'' @ b), existsSync = (\<lambda>p. True), stripAnsi = (\<lambda>x. x)\<rparr>
     ''sudo ls'' ''/work'' (Some ''hunter2'') ''/tmp/shell_pwd_0a1b2c3d4e5f.tmp''
   = Inr \<lparr>spawnFile = ''bash'',
          spawnArgs = [''-c'',
            ''{ echo '' @ [CHR 0x27] @ ''hunter2'' @ [CHR 0x27] @
            '' | sudo -S -- ls; }; __code=$?; pwd > '' @ [CHR 0x22] @
            ''/tmp/shell_pwd_0a1b2c3d4e5f.tmp'' @ [CHR 0x22] @ ''; exit $__code''],
          detached = True, cwd = ''/work''\<rparr> \<and>
   includesStr
     (''{ echo '' @ [CHR 0x27] @ ''hunter2'' @ [CHR 0x27] @
      '' | sudo -S -- ls; }; __code=$?; pgrep -g 0 >/tmp/shell_pgrep_0a1b2c3d4e5f.tmp 2>&1; exit $__code;'')
     ''hunter2'' \<and>
   executeShellCommand_piped
     \<lparr>isWindows = False, schemaValidate = (\<lambda>p. True), isAbsolute = (\<lambda>p. False),
      resolve = (\<lambda>a b. a @ ''/'' @ b), existsSync = (\<lambda>p. True), stripAnsi = (\<lambda>x. x)\<rparr>
     ''sudo ls'' ''/work'' (Some ''hunter2'') ''/tmp/shell_pwd_0a1b2c3d4e5f.tmp''
   = Inr (\<lparr>spawnFile = ''bash'',
           spawnArgs = [''-c'',
             ''{ sudo -S ls; }; __code=$?; pwd > '' @ [CHR 0x22] @
             ''/tmp/shell_pwd_0a1b2c3d4e5f.tmp'' @ [CHR 0x22] @ ''; exit $__code''],
           detached = True, cwd = ''/work''\<rparr>,
          Some (''hunter2'' @ [CHR 0x0A]))"
  by code_simp

text \<open>The same for every secret without a single quote.\<close>

lemma escapeQuotes_plain: "CHR 0x27 \<notin> set pw \<Longrightarrow> escapeQuotes pw = pw"
  by (induction pw) (auto simp: escapeQuotes_def)

lemma sudoWrapped_holds_secret:
  "CHR 0x27 \<notin> set pw \<Longrightarrow> \<exists>v. sudoWrapped pw cmd = ''echo '' @ [CHR 0x27] @ pw @ v"
  by (simp add: sudoWrapped_def Let_def escapeQuotes_plain)

lemma pgrepWrapped_holds_command: "\<exists>v. pgrepWrapped c tmp = ''{ '' @ c @ v"
  by (simp add: pgrepWrapped_def Let_def)

lemma pwdWrapped_holds_command: "\<exists>v. pwdWrapped c tmp = ''{ '' @ c @ v"
  by (simp add: pwdWrapped_def Let_def)

lemma sudo_secret_in_argv:
  assumes valid: "validateToolParams h cfg params = None"
    and posix: "\<not> isWindows h"
    and sudo: "startsWith (trim (command params)) ''sudo ''"
    and cached: "isPasswordCached tool now"
    and secret: "sudoPassword tool = Some pw" "CHR 0x27 \<notin> set pw"
  shows "\<exists>u v d. execute_spawn h cfg tool params False now tmp
           = Inr \<lparr>spawnFile = ''bash'', spawnArgs = [''-c'', u @ pw @ v],
                  detached = True, cwd = d\<rparr>"
proof -
  obtain v1 where 1: "sudoWrapped pw (command params) = ''echo '' @ [CHR 0x27] @ pw @ v1"
    using sudoWrapped_holds_secret [OF secret(2)] by blast
  obtain v2 where 2: "pgrepWrapped (sudoWrapped pw (command params)) tmp
                        = ''{ '' @ sudoWrapped pw (command params) @ v2"
    using pgrepWrapped_holds_command by blast
  have "''{ '' @ sudoWrapped pw (command params) @ v2 = (''{ echo '' @ [CHR 0x27]) @ pw @ (v1 @ v2)"
    by (simp add: 1)
  with 2 have eq: "pgrepWrapped (sudoWrapped pw (command params)) tmp
          = (''{ echo '' @ [CHR 0x27]) @ pw @ (v1 @ v2)"
    by (rule trans)
  have "execute_spawn h cfg tool params False now tmp
          = Inr \<lparr>spawnFile = ''bash'',
                 spawnArgs = [''-c'', pgrepWrapped (sudoWrapped pw (command params)) tmp],
                 detached = True,
                 cwd = resolve h (getTargetDir cfg)
                         (case directory params of Some d \<Rightarrow> d | None \<Rightarrow> [])\<rparr>"
    using valid posix sudo cached secret(1) by (simp add: execute_spawn_def Let_def)
  then show ?thesis unfolding eq by blast
qed



section \<open>Properties of the output handling of the interactive shell\<close>

lemma sniff_frame:
  "outputChunks (sniff deps s) = outputChunks s \<and> runExited (sniff deps s) = runExited s \<and>
   resolved (sniff deps s) = resolved s \<and> runStdout (sniff deps s) = runStdout s \<and>
   runStderr (sniff deps s) = runStderr s \<and> stdoutDecoder (sniff deps s) = stdoutDecoder s \<and>
   stderrDecoder (sniff deps s) = stderrDecoder s"
  by (simp add: sniff_def Let_def)

lemma sniff_flagged: "\<not> streamToUi s \<Longrightarrow> sniff deps s = s"
  by (simp add: sniff_def)

lemma decode_frame:
  "outputChunks (decode h deps data str s) = outputChunks s \<and>
   runExited (decode h deps data str s) = runExited s \<and>
   resolved (decode h deps data str s) = resolved s \<and>
   streamToUi (decode h deps data str s) = streamToUi s \<and>
   sniffedBytes (decode h deps data str s) = sniffedBytes s \<and>
   sent (decode h deps data str s) = sent s"
  by (cases str) (simp_all add: decode_def split: prod.splits)

lemma notify_frame:
  "outputChunks (notify deps s) = outputChunks s \<and> runExited (notify deps s) = runExited s \<and>
   resolved (notify deps s) = resolved s \<and> streamToUi (notify deps s) = streamToUi s \<and>
   sniffedBytes (notify deps s) = sniffedBytes s \<and> runStdout (notify deps s) = runStdout s \<and>
   runStderr (notify deps s) = runStderr s"
  by (simp add: notify_def Let_def)

lemma notify_sent:
  "sent (notify deps s)
     = sent s @ (if runExited s then []
                 else if streamToUi s then [combinedOutput (runStdout s) (runStderr s)]
                 else [progressNotice deps (totalBytes (outputChunks s))])"
  by (simp add: notify_def)

lemma handleOutput_eq:
  "handleOutput h deps s (data, str)
     = notify deps (decode h deps data str (sniff deps (s\<lparr>outputChunks := outputChunks s @ [data]\<rparr>)))"
  by (simp add: handleOutput_def Let_def)

lemma handleOutput_frame:
  "outputChunks (handleOutput h deps s ev) = outputChunks s @ [fst ev] \<and>
   runExited (handleOutput h deps s ev) = runExited s \<and>
   resolved (handleOutput h deps s ev) = resolved s"
  by (cases ev) (simp add: handleOutput_eq notify_frame decode_frame sniff_frame)

lemma handleOutputs_Nil [simp]: "handleOutputs h deps s [] = s"
  by (simp add: handleOutputs_def)

lemma handleOutputs_Cons [simp]:
  "handleOutputs h deps s (ev # evs) = handleOutputs h deps (handleOutput h deps s ev) evs"
  by (simp add: handleOutputs_def)

lemma handleOutputs_append:
  "handleOutputs h deps s (xs @ ys) = handleOutputs h deps (handleOutputs h deps s xs) ys"
  by (simp add: handleOutputs_def)

lemma handleOutputs_frame:
  "outputChunks (handleOutputs h deps s evs) = outputChunks s @ map fst evs \<and>
   runExited (handleOutputs h deps s evs) = runExited s \<and>
   resolved (handleOutputs h deps s evs) = resolved s"
  by (induction evs arbitrary: s) (simp_all add: handleOutput_frame)

lemma handleOutput_flagged:
  "\<not> streamToUi s \<Longrightarrow>
     \<not> streamToUi (handleOutput h deps s ev) \<and>
     sent (handleOutput h deps s ev)
       = sent s @ (if runExited s then []
                   else [progressNotice deps (totalBytes (outputChunks s @ [fst ev]))])"
proof -
  assume f: "\<not> streamToUi s"
  obtain data str where ev: "ev = (data, str)" by (cases ev)
  let ?s1 = "s\<lparr>outputChunks := outputChunks s @ [data]\<rparr>"
  have "\<not> streamToUi ?s1" using f by simp
  then have sn: "sniff deps ?s1 = ?s1" by (rule sniff_flagged)
  show ?thesis
    unfolding ev handleOutput_eq sn
    using f by (simp add: notify_frame notify_sent decode_frame)
qed

lemma sniff_flagging:
  "streamToUi s \<Longrightarrow> \<not> streamToUi (sniff deps s) \<Longrightarrow>
     sent (sniff deps s) = sent s @ [''[Binary output detected. Halting stream...]'']"
  by (simp add: sniff_def Let_def split: if_splits)

lemma handleOutput_flagging:
  "streamToUi s \<Longrightarrow> \<not> streamToUi (handleOutput h deps s ev) \<Longrightarrow>
     sent (handleOutput h deps s ev)
       = sent s @ ''[Binary output detected. Halting stream...]''
           # (if runExited s then []
              else [progressNotice deps (totalBytes (outputChunks s @ [fst ev]))])"
proof -
  assume t: "streamToUi s" and f: "\<not> streamToUi (handleOutput h deps s ev)"
  obtain data str where ev: "ev = (data, str)" by (cases ev)
  let ?s1 = "s\<lparr>outputChunks := outputChunks s @ [data]\<rparr>"
  have t1: "streamToUi ?s1" using t by simp
  have f1: "\<not> streamToUi (sniff deps ?s1)"
    using f unfolding ev handleOutput_eq by (simp add: notify_frame decode_frame)
  have "sent (sniff deps ?s1) = sent s @ [''[Binary output detected. Halting stream...]'']"
    using sniff_flagging [OF t1 f1] by simp
  then show ?thesis
    unfolding ev handleOutput_eq
    using f1 by (simp add: notify_frame notify_sent decode_frame sniff_frame)
qed

lemma handleOutputs_flagged:
  "\<not> streamToUi s \<Longrightarrow>
     \<not> streamToUi (handleOutputs h deps s evs) \<and>
     (\<exists>ns. length ns = (if runExited s then 0 else length evs) \<and>
        sent (handleOutputs h deps s evs) = sent s @ map (progressNotice deps) ns)"
proof (induction evs arbitrary: s)
  case Nil
  then show ?case by simp
next
  case (Cons ev evs)
  let ?s = "handleOutput h deps s ev"
  from Cons.prems have f: "\<not> streamToUi ?s" and
    snt: "sent ?s = sent s @ (if runExited s then []
                   else [progressNotice deps (totalBytes (outputChunks s @ [fst ev]))])"
    using handleOutput_flagged by blast+
  have ex: "runExited ?s = runExited s" by (simp add: handleOutput_frame)
  from Cons.IH [OF f] obtain ns where
    ns: "length ns = (if runExited ?s then 0 else length evs)"
      "sent (handleOutputs h deps ?s evs) = sent ?s @ map (progressNotice deps) ns"
    by blast
  show ?case
  proof (cases "runExited s")
    case True
    then show ?thesis using Cons.IH [OF f] ns snt ex by auto
  next
    case False
    let ?ns = "totalBytes (outputChunks s @ [fst ev]) # ns"
    have "length ?ns = length (ev # evs)" using ns(1) ex False by simp
    moreover have "sent (handleOutputs h deps s (ev # evs)) = sent s @ map (progressNotice deps) ?ns"
      using ns(2) snt False by simp
    ultimately show ?thesis using Cons.IH [OF f] False by (metis handleOutputs_Cons)
  qed
qed

text \<open>
  The promise is resolved by the exit listener, with all bytes received so far
  and the abort flag of that moment.
\<close>

lemma onExit_resolves:
  "resolved s = None \<Longrightarrow>
     \<exists>r. resolved (onExit deps c sig isAborted pwdFile s) = Some r \<and>
         rawOutput r = concat (outputChunks s) \<and> aborted r = isAborted \<and>
         exitCode r = c \<and> signal r = sig"
  by (simp add: onExit_def Let_def)

lemma totalBytes_concat: "totalBytes chunks = length (concat chunks)"
proof -
  have "foldl (\<lambda>sum chunk. sum + length chunk) a chunks = a + length (concat chunks)" for a
    by (induction chunks arbitrary: a) simp_all
  then show ?thesis by (simp add: totalBytes_def)
qed

lemma progressNotice_text:
  "progressNotice deps (totalBytes chunks)
     = ''[Receiving binary output... '' @ formatMemoryUsage deps (length (concat chunks)) @ '' received]''"
  by (simp add: progressNotice_def totalBytes_concat)

lemma handleOutputs_snoc:
  "handleOutputs h deps s (xs @ [e]) = handleOutput h deps (handleOutputs h deps s xs) e"
  by (simp add: handleOutputs_append)

lemma handleOutputs_notices:
  "\<not> streamToUi s \<Longrightarrow> \<not> runExited s \<Longrightarrow>
     sent (handleOutputs h deps s evs)
       = sent s @ map (\<lambda>k. ''[Receiving binary output... '' @
                          formatMemoryUsage deps
                            (length (concat (outputChunks s @ map fst (take k evs))))
                          @ '' received]'')
                    [1..<Suc (length evs)]"
proof (induction evs rule: rev_induct)
  case Nil
  then show ?case by simp
next
  case (snoc e xs)
  let ?run = "handleOutputs h deps s xs"
  let ?n = "\<lambda>ys k. ''[Receiving binary output... '' @
                          formatMemoryUsage deps
                            (length (concat (outputChunks s @ map fst (take k ys))))
                          @ '' received]''"
  have f: "\<not> streamToUi ?run" using handleOutputs_flagged [OF snoc.prems(1)] by blast
  have r: "\<not> runExited ?run" using snoc.prems(2) by (simp add: handleOutputs_frame)
  have c: "outputChunks ?run = outputChunks s @ map fst xs" by (simp add: handleOutputs_frame)
  have "sent (handleOutput h deps ?run e)
          = sent ?run @ [progressNotice deps (totalBytes (outputChunks ?run @ [fst e]))]"
    using handleOutput_flagged [OF f, of h deps e] r by simp
  then have step: "sent (handleOutputs h deps s (xs @ [e])) = sent ?run @ [?n (xs @ [e]) (Suc (length xs))]"
    unfolding handleOutputs_snoc progressNotice_text c by simp
  have same: "map (?n (xs @ [e])) [1..<Suc (length xs)] = map (?n xs) [1..<Suc (length xs)]"
    by (rule map_cong) auto
  have "map (?n (xs @ [e])) [1..<Suc (length (xs @ [e]))]
          = map (?n (xs @ [e])) [1..<Suc (length xs)] @ [?n (xs @ [e]) (Suc (length xs))]"
    by simp
  then show ?case using step snoc.IH [OF snoc.prems] same by simp
qed

lemma handleOutputs_silent:
  "\<not> streamToUi s \<Longrightarrow> runExited s \<Longrightarrow> sent (handleOutputs h deps s evs) = sent s"
  using handleOutputs_flagged [of s h deps evs] by auto

text \<open>
  Claim C6, as amended. The binary flag is one-way. In the call that sets it the
  callback gets the halting notice and a progress notice; once it is set, any
  further data events leave it set and send exactly one progress notice each,
  with the number of bytes received so far (none after the exit), never the
  decoded text; every chunk, before and after the flag, is kept, so that the raw
  bytes of the result are all bytes received up to the exit event. Chunks that
  arrive after the exit do not change the result.
\<close>

theorem binary_flag_one_way:
  "(streamToUi s \<and> \<not> streamToUi (handleOutput h deps s ev) \<longrightarrow>
      sent (handleOutput h deps s ev)
        = sent s @ ''[Binary output detected. Halting stream...]''
            # (if runExited s then []
               else [''[Receiving binary output... '' @
                     formatMemoryUsage deps (length (concat (outputChunks s @ [fst ev])))
                     @ '' received]''])) \<and>
   (\<not> streamToUi s \<longrightarrow>
      \<not> streamToUi (handleOutputs h deps s evs) \<and>
      sent (handleOutputs h deps s evs)
        = sent s @
          (if runExited s then []
           else map (\<lambda>k. ''[Receiving binary output... '' @
                          formatMemoryUsage deps
                            (length (concat (outputChunks s @ map fst (take k evs))))
                          @ '' received]'')
                    [1..<Suc (length evs)])) \<and>
   outputChunks (handleOutputs h deps s evs) = outputChunks s @ map fst evs \<and>
   (resolved s = None \<longrightarrow>
      (\<exists>r. resolved (onExit deps c sig isAborted pwdFile (handleOutputs h deps s evs)) = Some r \<and>
           rawOutput r = concat (outputChunks s) @ concat (map fst evs))) \<and>
   resolved (handleOutputs h deps (onExit deps c sig isAborted pwdFile s) evs)
     = resolved (onExit deps c sig isAborted pwdFile s)"
proof (intro conjI impI)
  assume "streamToUi s \<and> \<not> streamToUi (handleOutput h deps s ev)"
  then show "sent (handleOutput h deps s ev)
        = sent s @ ''[Binary output detected. Halting stream...]''
            # (if runExited s then []
               else [''[Receiving binary output... '' @
                     formatMemoryUsage deps (length (concat (outputChunks s @ [fst ev])))
                     @ '' received]''])"
    using handleOutput_flagging [of s h deps ev]
    by (simp only: progressNotice_text) simp
next
  assume f: "\<not> streamToUi s"
  show "\<not> streamToUi (handleOutputs h deps s evs)"
    using handleOutputs_flagged [OF f] by blast
  show "sent (handleOutputs h deps s evs)
        = sent s @
          (if runExited s then []
           else map (\<lambda>k. ''[Receiving binary output... '' @
                          formatMemoryUsage deps
                            (length (concat (outputChunks s @ map fst (take k evs))))
                          @ '' received]'')
                    [1..<Suc (length evs)])"
  proof (cases "runExited s")
    case True
    then show ?thesis using handleOutputs_silent [OF f True, of h deps evs] by simp
  next
    case False
    then show ?thesis using handleOutputs_notices [OF f False, of h deps evs] by simp
  qed
next
  show "outputChunks (handleOutputs h deps s evs) = outputChunks s @ map fst evs"
    by (simp add: handleOutputs_frame)
next
  assume "resolved s = None"
  then have "resolved (handleOutputs h deps s evs) = None"
    by (simp add: handleOutputs_frame)
  from onExit_resolves [OF this, of deps c sig isAborted pwdFile]
  show "\<exists>r. resolved (onExit deps c sig isAborted pwdFile (handleOutputs h deps s evs)) = Some r \<and>
           rawOutput r = concat (outputChunks s) @ concat (map fst evs)"
    by (auto simp: handleOutputs_frame)
next
  show "resolved (handleOutputs h deps (onExit deps c sig isAborted pwdFile s) evs)
     = resolved (onExit deps c sig isAborted pwdFile s)"
    by (simp add: handleOutputs_frame)
qed


theorem binary_flag_one_way_witness:
  "\<not> streamToUi
       (handleOutputs
          \<lparr>isWindows = False, schemaValidate = (\<lambda>p. True), isAbsolute = (\<lambda>p. False),
           resolve = (\<lambda>a b. a @ ''/'' @ b), existsSync = (\<lambda>p. True), stripAnsi = (\<lambda>x. x)\<rparr>
          \<lparr>isBinary = (\<lambda>b. 0 \<in> set b), formatMemoryUsage = showNat,
           decoderWrite = (\<lambda>d b. (replicate (length b) CHR ''x'', d)), decoderEnd = (\<lambda>d. [])\<rparr>
          (handleOutput
             \<lparr>isWindows = False, schemaValidate = (\<lambda>p. True), isAbsolute = (\<lambda>p. False),
              resolve = (\<lambda>a b. a @ ''/'' @ b), existsSync = (\<lambda>p. True), stripAnsi = (\<lambda>x. x)\<rparr>
             \<lparr>isBinary = (\<lambda>b. 0 \<in> set b), formatMemoryUsage = showNat,
              decoderWrite = (\<lambda>d b. (replicate (length b) CHR ''x'', d)), decoderEnd = (\<lambda>d. [])\<rparr>
             (started (0::nat)) ([0], Stdout))
          [([104, 105], Stdout), ([111], Stderr)]) \<and>
   sent
       (handleOutputs
          \<lparr>isWindows = False, schemaValidate = (\<lambda>p. True), isAbsolute = (\<lambda>p. False),
           resolve = (\<lambda>a b. a @ ''/'' @ b), existsSync = (\<lambda>p. True), stripAnsi = (\<lambda>x. x)\<rparr>
          \<lparr>isBinary = (\<lambda>b. 0 \<in> set b), formatMemoryUsage = showNat,
           decoderWrite = (\<lambda>d b. (replicate (length b) CHR ''x'', d)), decoderEnd = (\<lambda>d. [])\<rparr>
          (handleOutput
             \<lparr>isWindows = False, schemaValidate = (\<lambda>p. True), isAbsolute = (\<lambda>p. False),
              resolve = (\<lambda>a b. a @ ''/'' @ b), existsSync = (\<lambda>p. True), stripAnsi = (\<lambda>x. x)\<rparr>
             \<lparr>isBinary = (\<lambda>b. 0 \<in> set b), formatMemoryUsage = showNat,
              decoderWrite = (\<lambda>d b. (replicate (length b) CHR ''x'', d)), decoderEnd = (\<lambda>d. [])\<rparr>
             (started (0::nat)) ([0], Stdout))
          [([104, 105], Stdout), ([111], Stderr)])
     = [''[Binary output detected. Halting stream...]'',
        ''[Receiving binary output... 1 received]'',
        ''[Receiving binary output... 3 received]'',
        ''[Receiving binary output... 4 received]''] \<and>
   (\<exists>r. resolved
          (onExit
             \<lparr>isBinary = (\<lambda>b. 0 \<in> set b), formatMemoryUsage = showNat,
              decoderWrite = (\<lambda>d b. (replicate (length b) CHR ''x'', d)), decoderEnd = (\<lambda>d. [])\<rparr>
             (Some 0) None False None
             (handleOutputs
                \<lparr>isWindows = False, schemaValidate = (\<lambda>p. True), isAbsolute = (\<lambda>p. False),
                 resolve = (\<lambda>a b. a @ ''/'' @ b), existsSync = (\<lambda>p. True),
                 stripAnsi = (\<lambda>x. x)\<rparr>
                \<lparr>isBinary = (\<lambda>b. 0 \<in> set b), formatMemoryUsage = showNat,
                 decoderWrite = (\<lambda>d b. (replicate (length b) CHR ''x'', d)),
                 decoderEnd = (\<lambda>d. [])\<rparr>
                (started (0::nat))
                [([0], Stdout), ([104, 105], Stdout), ([111], Stderr)]))
        = Some r \<and> rawOutput r = [0, 104, 105, 111])"
proof -
  let ?h = "\<lparr>isWindows = False, schemaValidate = (\<lambda>p. True), isAbsolute = (\<lambda>p. False),
           resolve = (\<lambda>a b. a @ ''/'' @ b), existsSync = (\<lambda>p. True), stripAnsi = (\<lambda>x. x)\<rparr>"
  let ?d = "\<lparr>isBinary = (\<lambda>b. (0 :: byte) \<in> set b), formatMemoryUsage = showNat,
           decoderWrite = (\<lambda>(d :: nat) b. (replicate (length b) CHR ''x'', d)),
           decoderEnd = (\<lambda>d. [])\<rparr>"
  let ?s0 = "started (0::nat)"
  let ?s1 = "handleOutput ?h ?d ?s0 ([0], Stdout)"
  let ?evs = "[([104, 105 :: byte], Stdout), ([111], Stderr)]"
  have t0: "streamToUi ?s0" "\<not> runExited ?s0" "sent ?s0 = []" "outputChunks ?s0 = []"
    "resolved ?s0 = None"
    by (simp_all add: started_def)
  have "\<not> streamToUi (sniff ?d (?s0\<lparr>outputChunks := outputChunks ?s0 @ [[0]]\<rparr>))"
    by (simp add: sniff_def started_def MAX_SNIFF_SIZE_def)
  then have f: "\<not> streamToUi ?s1"
    unfolding handleOutput_eq by (simp add: notify_frame decode_frame)
  have c1: "outputChunks ?s1 = [[0]]" "\<not> runExited ?s1"
    by (simp_all add: handleOutput_frame t0)
  note first = mp [OF conjunct1 [OF binary_flag_one_way [of ?s0 ?h ?d "([0], Stdout)"]]
      conjI [OF t0(1) f]]
  have n1: "showNat 1 = ''1''" "showNat 3 = ''3''" "showNat 4 = ''4''" by code_simp+
  have s1: "sent ?s1 = [''[Binary output detected. Halting stream...]'',
                        ''[Receiving binary output... 1 received]'']"
    using first by (simp add: t0 n1)
  note after = mp [OF conjunct1 [OF conjunct2 [OF binary_flag_one_way [of ?s1 ?h ?d _ ?evs]]] f]
  have flagged: "\<not> streamToUi (handleOutputs ?h ?d ?s1 ?evs)"
    by (rule conjunct1 [OF after])
  have up: "[1..<Suc (length ?evs)] = [1, 2]" by (simp add: upt_rec)
  have notices: "sent (handleOutputs ?h ?d ?s1 ?evs)
     = [''[Binary output detected. Halting stream...]'',
        ''[Receiving binary output... 1 received]'',
        ''[Receiving binary output... 3 received]'',
        ''[Receiving binary output... 4 received]'']"
    using conjunct2 [OF after] by (simp only: up s1 c1) (simp add: n1)
  note kept = conjunct1 [OF conjunct2 [OF conjunct2 [OF conjunct2 [OF binary_flag_one_way
      [of ?s0 ?h ?d _ "[([0], Stdout), ([104, 105], Stdout), ([111], Stderr)]"
        "Some 0" None False None]]]]]
  from mp [OF kept t0(5)] obtain r where
    "resolved (onExit ?d (Some 0) None False None
       (handleOutputs ?h ?d ?s0 [([0], Stdout), ([104, 105], Stdout), ([111], Stderr)]))
     = Some r"
    "rawOutput r = concat (outputChunks ?s0)
       @ concat (map fst [([0 :: byte], Stdout), ([104, 105], Stdout), ([111], Stderr)])"
    by blast
  then have res: "\<exists>r. resolved (onExit ?d (Some 0) None False None
       (handleOutputs ?h ?d ?s0 [([0], Stdout), ([104, 105], Stdout), ([111], Stderr)]))
     = Some r \<and> rawOutput r = [0, 104, 105, 111]"
    by (simp add: t0)
  show ?thesis by (intro conjI flagged notices res)
qed


text \<open>
  The claim as first stated fails for output that arrives after the exit event:
  the chunk is pushed to \<^verbatim>\<open>outputChunks\<close>, but the promise was resolved at the exit
  and the raw bytes of the result do not hold it.
\<close>

theorem late_output_counterexample:
  "concat (outputChunks
     (handleOutput
        \<lparr>isWindows = False, schemaValidate = (\<lambda>p. True), isAbsolute = (\<lambda>p. False),
         resolve = (\<lambda>a b. a @ ''/'' @ b), existsSync = (\<lambda>p. True), stripAnsi = (\<lambda>x. x)\<rparr>
        \<lparr>isBinary = (\<lambda>b. 0 \<in> set b), formatMemoryUsage = showNat,
         decoderWrite = (\<lambda>d b. (replicate (length b) CHR ''x'', d)), decoderEnd = (\<lambda>d. [])\<rparr>
        (onExit
           \<lparr>isBinary = (\<lambda>b. 0 \<in> set b), formatMemoryUsage = showNat,
            decoderWrite = (\<lambda>d b. (replicate (length b) CHR ''x'', d)), decoderEnd = (\<lambda>d. [])\<rparr>
           (Some 0) None False None
           (handleOutput
              \<lparr>isWindows = False, schemaValidate = (\<lambda>p. True), isAbsolute = (\<lambda>p. False),
               resolve = (\<lambda>a b. a @ ''/'' @ b), existsSync = (\<lambda>p. True), stripAnsi = (\<lambda>x. x)\<rparr>
              \<lparr>isBinary = (\<lambda>b. 0 \<in> set b), formatMemoryUsage = showNat,
               decoderWrite = (\<lambda>d b. (replicate (length b) CHR ''x'', d)), decoderEnd = (\<lambda>d. [])\<rparr>
              (started (0::nat)) ([0], Stdout)))
        ([1], Stdout)))
   = [0, 1] \<and>
   map_option rawOutput (resolved
     (handleOutput
        \<lparr>isWindows = False, schemaValidate = (\<lambda>p. True), isAbsolute = (\<lambda>p. False),
         resolve = (\<lambda>a b. a @ ''/'' @ b), existsSync = (\<lambda>p. True), stripAnsi = (\<lambda>x. x)\<rparr>
        \<lparr>isBinary = (\<lambda>b. 0 \<in> set b), formatMemoryUsage = showNat,
         decoderWrite = (\<lambda>d b. (replicate (length b) CHR ''x'', d)), decoderEnd = (\<lambda>d. [])\<rparr>
        (onExit
           \<lparr>isBinary = (\<lambda>b. 0 \<in> set b), formatMemoryUsage = showNat,
            decoderWrite = (\<lambda>d b. (replicate (length b) CHR ''x'', d)), decoderEnd = (\<lambda>d. [])\<rparr>
           (Some 0) None False None
           (handleOutput
              \<lparr>isWindows = False, schemaValidate = (\<lambda>p. True), isAbsolute = (\<lambda>p. False),
               resolve = (\<lambda>a b. a @ ''/'' @ b), existsSync = (\<lambda>p. True), stripAnsi = (\<lambda>x. x)\<rparr>
              \<lparr>isBinary = (\<lambda>b. 0 \<in> set b), formatMemoryUsage = showNat,
               decoderWrite = (\<lambda>d b. (replicate (length b) CHR ''x'', d)), decoderEnd = (\<lambda>d. [])\<rparr>
              (started (0::nat)) ([0], Stdout)))
        ([1], Stdout)))
   = Some [0]"
proof -
  let ?h = "\<lparr>isWindows = False, schemaValidate = (\<lambda>p. True), isAbsolute = (\<lambda>p. False),
         resolve = (\<lambda>a b. a @ ''/'' @ b), existsSync = (\<lambda>p. True), stripAnsi = (\<lambda>x. x)\<rparr>"
  let ?d = "\<lparr>isBinary = (\<lambda>b. (0 :: byte) \<in> set b), formatMemoryUsage = showNat,
         decoderWrite = (\<lambda>(d :: nat) b. (replicate (length b) CHR ''x'', d)),
         decoderEnd = (\<lambda>d. [])\<rparr>"
  let ?s1 = "handleOutput ?h ?d (started (0::nat)) ([0], Stdout)"
  let ?sx = "onExit ?d (Some 0) None False None ?s1"
  have c1: "outputChunks ?s1 = [[0]]" by (simp add: handleOutput_frame started_def)
  have r1: "resolved ?s1 = None" by (simp add: handleOutput_frame started_def)
  have cx: "outputChunks ?sx = [[0]]" using c1 by (simp add: onExit_def Let_def)
  have rx: "map_option rawOutput (resolved ?sx) = Some [0]"
    using c1 r1 by (simp add: onExit_def Let_def)
  show ?thesis
    using cx rx by (simp add: handleOutput_frame)
qed


lemma handleOutput_text:
  assumes t: "streamToUi s" and r: "\<not> runExited s"
    and nb: "\<not> isBinary deps (concat (take 20 (outputChunks s @ [fst ev])))"
  shows "streamToUi (handleOutput h deps s ev) \<and>
         sent (handleOutput h deps s ev)
           = sent s @ [combinedOutput (runStdout (handleOutput h deps s ev))
                                      (runStderr (handleOutput h deps s ev))]"
proof -
  obtain data str where ev: "ev = (data, str)" by (cases ev)
  let ?s1 = "s\<lparr>outputChunks := outputChunks s @ [data]\<rparr>"
  have sn: "streamToUi (sniff deps ?s1) \<and> sent (sniff deps ?s1) = sent s"
    using t nb ev by (simp add: sniff_def Let_def)
  show ?thesis
    unfolding ev handleOutput_eq
    using sn r by (simp add: notify_frame notify_sent decode_frame sniff_frame)
qed

lemma handleOutput_sniffed:
  "streamToUi (handleOutput h deps s ev) \<Longrightarrow>
     MAX_SNIFF_SIZE \<le> sniffedBytes (handleOutput h deps s ev) \<or>
     \<not> isBinary deps (concat (take 20 (outputChunks (handleOutput h deps s ev))))"
proof -
  assume t: "streamToUi (handleOutput h deps s ev)"
  obtain data str where ev: "ev = (data, str)" by (cases ev)
  let ?s1 = "s\<lparr>outputChunks := outputChunks s @ [data]\<rparr>"
  have t1: "streamToUi (sniff deps ?s1)"
    using t unfolding ev handleOutput_eq by (simp add: notify_frame decode_frame)
  have "MAX_SNIFF_SIZE \<le> sniffedBytes (sniff deps ?s1) \<or>
        \<not> isBinary deps (concat (take 20 (outputChunks ?s1)))"
    using t1 by (auto simp: sniff_def Let_def split: if_splits)
  then show ?thesis
    unfolding ev handleOutput_eq by (simp add: notify_frame decode_frame sniff_frame)
qed

lemma handleOutput_settled:
  assumes t: "streamToUi s" and n: "20 \<le> length (outputChunks s)"
    and j: "MAX_SNIFF_SIZE \<le> sniffedBytes s \<or> \<not> isBinary deps (concat (take 20 (outputChunks s)))"
  shows "streamToUi (handleOutput h deps s ev) \<and>
         (MAX_SNIFF_SIZE \<le> sniffedBytes (handleOutput h deps s ev) \<or>
          \<not> isBinary deps (concat (take 20 (outputChunks (handleOutput h deps s ev)))))"
proof -
  obtain data str where ev: "ev = (data, str)" by (cases ev)
  let ?s1 = "s\<lparr>outputChunks := outputChunks s @ [data]\<rparr>"
  have tk: "take 20 (outputChunks s @ [data]) = take 20 (outputChunks s)"
    using n by simp
  have "streamToUi (sniff deps ?s1)"
    using t j tk by (auto simp: sniff_def Let_def)
  then have "streamToUi (handleOutput h deps s ev)"
    unfolding ev handleOutput_eq by (simp add: notify_frame decode_frame)
  then show ?thesis using handleOutput_sniffed by blast
qed

lemma handleOutputs_settled:
  "streamToUi s \<Longrightarrow> 20 \<le> length (outputChunks s) \<Longrightarrow>
   MAX_SNIFF_SIZE \<le> sniffedBytes s \<or> \<not> isBinary deps (concat (take 20 (outputChunks s))) \<Longrightarrow>
     streamToUi (handleOutputs h deps s evs)"
proof (induction evs arbitrary: s)
  case Nil
  then show ?case by simp
next
  case (Cons ev evs)
  have "20 \<le> length (outputChunks (handleOutput h deps s ev))"
    using Cons.prems(2) by (simp add: handleOutput_frame)
  then show ?case
    using Cons.IH handleOutput_settled [OF Cons.prems, of h ev] by simp
qed

lemma sniff_first_twenty:
  "streamToUi (handleOutputs h deps (started d0) evs)
     = streamToUi (handleOutputs h deps (started d0) (take 20 evs))"
proof (cases "length evs \<le> 20")
  case True
  then show ?thesis by simp
next
  case False
  then have len: "20 < length evs" by simp
  let ?s20 = "handleOutputs h deps (started d0) (take 20 evs)"
  have split: "handleOutputs h deps (started d0) evs = handleOutputs h deps ?s20 (drop 20 evs)"
    using handleOutputs_append [of h deps "started d0" "take 20 evs" "drop 20 evs"] by simp
  have chunks: "length (outputChunks ?s20) = 20"
    using len by (simp add: handleOutputs_frame started_def)
  show ?thesis
  proof (cases "streamToUi ?s20")
    case False
    then show ?thesis unfolding split using handleOutputs_flagged by blast
  next
    case True
    have "take 20 evs = take 19 evs @ [evs ! 19]"
      using take_Suc_conv_app_nth [of 19 evs] len by simp
    then have "?s20 = handleOutput h deps (handleOutputs h deps (started d0) (take 19 evs)) (evs ! 19)"
      by (simp add: handleOutputs_append)
    then have "MAX_SNIFF_SIZE \<le> sniffedBytes ?s20 \<or>
               \<not> isBinary deps (concat (take 20 (outputChunks ?s20)))"
      using True handleOutput_sniffed [of h deps "handleOutputs h deps (started d0) (take 19 evs)" "evs ! 19"]
      by simp
    then have "streamToUi (handleOutputs h deps ?s20 (drop 20 evs))"
      using handleOutputs_settled [of ?s20 deps h "drop 20 evs"] True chunks by simp
    then show ?thesis unfolding split using True by simp
  qed
qed

lemma text_stream:
  "\<forall>k \<in> {1..min 20 (length evs)}. \<not> isBinary deps (concat (map fst (take k evs))) \<Longrightarrow>
     streamToUi (handleOutputs h deps (started d0) evs) \<and>
     sent (handleOutputs h deps (started d0) evs)
       = map (\<lambda>k. combinedOutput (runStdout (handleOutputs h deps (started d0) (take k evs)))
                                  (runStderr (handleOutputs h deps (started d0) (take k evs))))
           [1..<Suc (length evs)]"
proof (induction evs rule: rev_induct)
  case Nil
  then show ?case by (simp add: started_def)
next
  case (snoc e xs)
  let ?run = "\<lambda>ys. handleOutputs h deps (started d0) ys"
  have "\<forall>k \<in> {1..min 20 (length xs)}. \<not> isBinary deps (concat (map fst (take k xs)))"
  proof
    fix k assume k: "k \<in> {1..min 20 (length xs)}"
    then have "k \<in> {1..min 20 (length (xs @ [e]))}" by auto
    then have "\<not> isBinary deps (concat (map fst (take k (xs @ [e]))))" using snoc.prems by blast
    moreover have "take k (xs @ [e]) = take k xs" using k by simp
    ultimately show "\<not> isBinary deps (concat (map fst (take k xs)))" by simp
  qed
  then have ih: "streamToUi (?run xs)"
    "sent (?run xs)
       = map (\<lambda>k. combinedOutput (runStdout (?run (take k xs))) (runStderr (?run (take k xs))))
           [1..<Suc (length xs)]"
    using snoc.IH by blast+
  have step: "?run (xs @ [e]) = handleOutput h deps (?run xs) e"
    by (simp add: handleOutputs_append)
  have chunks: "outputChunks (?run xs) = map fst xs"
    by (simp add: handleOutputs_frame started_def)
  have running: "\<not> runExited (?run xs)"
    by (simp add: handleOutputs_frame started_def)
  let ?k = "min 20 (Suc (length xs))"
  have "?k \<in> {1..min 20 (length (xs @ [e]))}" by simp
  then have "\<not> isBinary deps (concat (map fst (take ?k (xs @ [e]))))"
    using snoc.prems by blast
  moreover have "take 20 (xs @ [e]) = take ?k (xs @ [e])"
    by (cases "20 \<le> Suc (length xs)") (simp_all add: min_def)
  then have "take 20 (map fst (xs @ [e])) = map fst (take ?k (xs @ [e]))"
    by (simp only: take_map)
  then have "take 20 (outputChunks (?run xs) @ [fst e]) = map fst (take ?k (xs @ [e]))"
    unfolding chunks by simp
  ultimately have nb: "\<not> isBinary deps (concat (take 20 (outputChunks (?run xs) @ [fst e])))"
    by simp
  from handleOutput_text [OF ih(1) running nb, of h]
  have t: "streamToUi (?run (xs @ [e]))"
    and snt: "sent (?run (xs @ [e]))
                = sent (?run xs) @ [combinedOutput (runStdout (?run (xs @ [e])))
                                                    (runStderr (?run (xs @ [e])))]"
    unfolding step by blast+
  have same: "map (\<lambda>k. combinedOutput (runStdout (?run (take k (xs @ [e]))))
                                        (runStderr (?run (take k (xs @ [e])))))
                [1..<Suc (length xs)]
              = map (\<lambda>k. combinedOutput (runStdout (?run (take k xs))) (runStderr (?run (take k xs))))
                [1..<Suc (length xs)]"
    by (rule map_cong) auto
  have "map (\<lambda>k. combinedOutput (runStdout (?run (take k (xs @ [e]))))
                                 (runStderr (?run (take k (xs @ [e])))))
          [1..<Suc (length (xs @ [e]))]
        = map (\<lambda>k. combinedOutput (runStdout (?run (take k (xs @ [e]))))
                                   (runStderr (?run (take k (xs @ [e])))))
            [1..<Suc (length xs)]
          @ [combinedOutput (runStdout (?run (xs @ [e]))) (runStderr (?run (xs @ [e])))]"
    by simp
  then show ?case using t snt ih(2) same by simp
qed

lemma notify_decoders:
  "stdoutDecoder (notify deps s) = stdoutDecoder s \<and> stderrDecoder (notify deps s) = stderrDecoder s"
  by (simp add: notify_def)

lemma decode_Stdout:
  "runStdout (decode h deps data Stdout s)
     = runStdout s @ stripAnsi h (fst (decoderWrite deps (stdoutDecoder s) data)) \<and>
   stdoutDecoder (decode h deps data Stdout s) = snd (decoderWrite deps (stdoutDecoder s) data) \<and>
   runStderr (decode h deps data Stdout s) = runStderr s \<and>
   stderrDecoder (decode h deps data Stdout s) = stderrDecoder s"
  by (simp add: decode_def split: prod.splits)

lemma decode_Stderr:
  "runStderr (decode h deps data Stderr s)
     = runStderr s @ stripAnsi h (fst (decoderWrite deps (stderrDecoder s) data)) \<and>
   stderrDecoder (decode h deps data Stderr s) = snd (decoderWrite deps (stderrDecoder s) data) \<and>
   runStdout (decode h deps data Stderr s) = runStdout s \<and>
   stdoutDecoder (decode h deps data Stderr s) = stdoutDecoder s"
  by (simp add: decode_def split: prod.splits)

lemma handleOutput_Stdout:
  "runStdout (handleOutput h deps s (data, Stdout))
     = runStdout s @ stripAnsi h (fst (decoderWrite deps (stdoutDecoder s) data)) \<and>
   stdoutDecoder (handleOutput h deps s (data, Stdout))
     = snd (decoderWrite deps (stdoutDecoder s) data) \<and>
   runStderr (handleOutput h deps s (data, Stdout)) = runStderr s \<and>
   stderrDecoder (handleOutput h deps s (data, Stdout)) = stderrDecoder s"
  unfolding handleOutput_eq
  by (simp add: notify_frame notify_decoders decode_Stdout sniff_frame)

lemma handleOutput_Stderr:
  "runStderr (handleOutput h deps s (data, Stderr))
     = runStderr s @ stripAnsi h (fst (decoderWrite deps (stderrDecoder s) data)) \<and>
   stderrDecoder (handleOutput h deps s (data, Stderr))
     = snd (decoderWrite deps (stderrDecoder s) data) \<and>
   runStdout (handleOutput h deps s (data, Stderr)) = runStdout s \<and>
   stdoutDecoder (handleOutput h deps s (data, Stderr)) = stdoutDecoder s"
  unfolding handleOutput_eq
  by (simp add: notify_frame notify_decoders decode_Stderr sniff_frame)

lemma handleOutputs_text:
  "runStdout (handleOutputs h deps s evs)
     = runStdout s @ decodeFrom h deps (stdoutDecoder s) (chunksOf Stdout evs) \<and>
   runStderr (handleOutputs h deps s evs)
     = runStderr s @ decodeFrom h deps (stderrDecoder s) (chunksOf Stderr evs)"
proof (induction evs arbitrary: s)
  case Nil
  then show ?case by (simp add: chunksOf_def)
next
  case (Cons ev evs)
  obtain data str where ev: "ev = (data, str)" by (cases ev)
  show ?case
  proof (cases str)
    case Stdout
    then show ?thesis
      using Cons.IH [of "handleOutput h deps s (data, Stdout)"] handleOutput_Stdout [of h deps s data]
      by (simp add: ev chunksOf_def split: prod.splits)
  next
    case Stderr
    then show ?thesis
      using Cons.IH [of "handleOutput h deps s (data, Stderr)"] handleOutput_Stderr [of h deps s data]
      by (simp add: ev chunksOf_def split: prod.splits)
  qed
qed

lemma started_text:
  "runStdout (handleOutputs h deps (started d0) evs) = decodeFrom h deps d0 (chunksOf Stdout evs) \<and>
   runStderr (handleOutputs h deps (started d0) evs) = decodeFrom h deps d0 (chunksOf Stderr evs)"
  using handleOutputs_text [of h deps "started d0" evs] by (simp add: started_def)

text \<open>
  Claim C10. Only the first 20 chunks are sniffed: whether a run of data events
  ends flagged binary is decided by its first 20 chunks. Every data event appends
  to the text of its stream what that stream's decoder yields for the chunk,
  stripped. When every sniff of the first 20 chunks (the concatenation of the
  first \<^verbatim>\<open>k\<close> chunks, \<^verbatim>\<open>k\<close> up to 20) is classified as text, the run is never flagged,
  whatever later chunks hold, and every data event sends the decoded text of both
  streams so far to the callback. This holds for any size of the first 20
  chunks, below 4096 bytes in particular.
\<close>

theorem sniff_only_first_chunks:
  "streamToUi (handleOutputs h deps (started d0) evs)
     = streamToUi (handleOutputs h deps (started d0) (take 20 evs)) \<and>
   runStdout (handleOutput h deps s (data, Stdout))
     = runStdout s @ stripAnsi h (fst (decoderWrite deps (stdoutDecoder s) data)) \<and>
   stdoutDecoder (handleOutput h deps s (data, Stdout))
     = snd (decoderWrite deps (stdoutDecoder s) data) \<and>
   runStderr (handleOutput h deps s (data, Stderr))
     = runStderr s @ stripAnsi h (fst (decoderWrite deps (stderrDecoder s) data)) \<and>
   stderrDecoder (handleOutput h deps s (data, Stderr))
     = snd (decoderWrite deps (stderrDecoder s) data) \<and>
   runStdout (handleOutputs h deps (started d0) evs) = decodeFrom h deps d0 (chunksOf Stdout evs) \<and>
   runStderr (handleOutputs h deps (started d0) evs) = decodeFrom h deps d0 (chunksOf Stderr evs) \<and>
   ((\<forall>k \<in> {1..min 20 (length evs)}. \<not> isBinary deps (concat (map fst (take k evs)))) \<longrightarrow>
      streamToUi (handleOutputs h deps (started d0) evs) \<and>
      sent (handleOutputs h deps (started d0) evs)
        = map (\<lambda>k. decodeFrom h deps d0 (chunksOf Stdout (take k evs)) @
                    (if decodeFrom h deps d0 (chunksOf Stderr (take k evs)) \<noteq> []
                     then [CHR 0x0A] @ decodeFrom h deps d0 (chunksOf Stderr (take k evs))
                     else []))
            [1..<Suc (length evs)])"
proof (intro conjI impI)
  show "streamToUi (handleOutputs h deps (started d0) evs)
     = streamToUi (handleOutputs h deps (started d0) (take 20 evs))"
    by (rule sniff_first_twenty)
next
  show "runStdout (handleOutput h deps s (data, Stdout))
     = runStdout s @ stripAnsi h (fst (decoderWrite deps (stdoutDecoder s) data))"
    and "stdoutDecoder (handleOutput h deps s (data, Stdout))
     = snd (decoderWrite deps (stdoutDecoder s) data)"
    using handleOutput_Stdout [of h deps s data] by blast+
next
  show "runStderr (handleOutput h deps s (data, Stderr))
     = runStderr s @ stripAnsi h (fst (decoderWrite deps (stderrDecoder s) data))"
    and "stderrDecoder (handleOutput h deps s (data, Stderr))
     = snd (decoderWrite deps (stderrDecoder s) data)"
    using handleOutput_Stderr [of h deps s data] by blast+
next
  show "runStdout (handleOutputs h deps (started d0) evs) = decodeFrom h deps d0 (chunksOf Stdout evs)"
    and "runStderr (handleOutputs h deps (started d0) evs) = decodeFrom h deps d0 (chunksOf Stderr evs)"
    using started_text [of h deps d0 evs] by blast+
next
  assume hyp: "\<forall>k \<in> {1..min 20 (length evs)}. \<not> isBinary deps (concat (map fst (take k evs)))"
  show "streamToUi (handleOutputs h deps (started d0) evs)"
    using text_stream [OF hyp] by blast
  have "sent (handleOutputs h deps (started d0) evs)
       = map (\<lambda>k. combinedOutput (runStdout (handleOutputs h deps (started d0) (take k evs)))
                                  (runStderr (handleOutputs h deps (started d0) (take k evs))))
           [1..<Suc (length evs)]"
    using text_stream [OF hyp] by blast
  then show "sent (handleOutputs h deps (started d0) evs)
        = map (\<lambda>k. decodeFrom h deps d0 (chunksOf Stdout (take k evs)) @
                    (if decodeFrom h deps d0 (chunksOf Stderr (take k evs)) \<noteq> []
                     then [CHR 0x0A] @ decodeFrom h deps d0 (chunksOf Stderr (take k evs))
                     else []))
            [1..<Suc (length evs)]"
    by (simp only: started_text combinedOutput_def)
qed

theorem sniff_only_first_chunks_witness:
  "streamToUi
     (handleOutputs
        \<lparr>isWindows = False, schemaValidate = (\<lambda>p. True), isAbsolute = (\<lambda>p. False),
         resolve = (\<lambda>a b. a @ ''/'' @ b), existsSync = (\<lambda>p. True), stripAnsi = (\<lambda>x. x)\<rparr>
        \<lparr>isBinary = (\<lambda>b. 0 \<in> set b), formatMemoryUsage = showNat,
         decoderWrite = (\<lambda>d b. (replicate (length b) CHR ''x'', d)), decoderEnd = (\<lambda>d. [])\<rparr>
        (started (0::nat))
        (replicate 20 ([104], Stdout) @ [([0], Stderr)])) \<and>
   sent
     (handleOutputs
        \<lparr>isWindows = False, schemaValidate = (\<lambda>p. True), isAbsolute = (\<lambda>p. False),
         resolve = (\<lambda>a b. a @ ''/'' @ b), existsSync = (\<lambda>p. True), stripAnsi = (\<lambda>x. x)\<rparr>
        \<lparr>isBinary = (\<lambda>b. 0 \<in> set b), formatMemoryUsage = showNat,
         decoderWrite = (\<lambda>d b. (replicate (length b) CHR ''x'', d)), decoderEnd = (\<lambda>d. [])\<rparr>
        (started (0::nat))
        [([104, 105], Stdout), ([33], Stderr)])
   = [''xx'', ''xx'' @ [CHR 0x0A] @ ''x'']"
proof -
  let ?h = "\<lparr>isWindows = False, schemaValidate = (\<lambda>p. True), isAbsolute = (\<lambda>p. False),
           resolve = (\<lambda>a b. a @ ''/'' @ b), existsSync = (\<lambda>p. True), stripAnsi = (\<lambda>x. x)\<rparr>"
  let ?d = "\<lparr>isBinary = (\<lambda>b. (0 :: byte) \<in> set b), formatMemoryUsage = showNat,
           decoderWrite = (\<lambda>(d :: nat) b. (replicate (length b) CHR ''x'', d)),
           decoderEnd = (\<lambda>d. [])\<rparr>"
  let ?evs = "replicate 20 ([104 :: byte], Stdout) @ [([0], Stderr)]"
  let ?two = "[([104, 105 :: byte], Stdout), ([33], Stderr)]"
  have "\<forall>k \<in> {1..min 20 (length ?evs)}. \<not> isBinary ?d (concat (map fst (take k ?evs)))"
    by auto
  then have long: "streamToUi (handleOutputs ?h ?d (started 0) ?evs)"
    using sniff_only_first_chunks [of ?h ?d 0 ?evs] by blast
  have k: "{1..min 20 (length ?two)} = {1, 2}" by auto
  have "\<forall>k \<in> {1..min 20 (length ?two)}. \<not> isBinary ?d (concat (map fst (take k ?two)))"
    unfolding k by simp
  then have "sent (handleOutputs ?h ?d (started 0) ?two)
        = map (\<lambda>k. decodeFrom ?h ?d 0 (chunksOf Stdout (take k ?two)) @
                    (if decodeFrom ?h ?d 0 (chunksOf Stderr (take k ?two)) \<noteq> []
                     then [CHR 0x0A] @ decodeFrom ?h ?d 0 (chunksOf Stderr (take k ?two))
                     else []))
            [1..<Suc (length ?two)]"
    using sniff_only_first_chunks [of ?h ?d 0 ?two] by blast
  moreover have "[1..<Suc (length ?two)] = [1, 2]" by (simp add: upt_rec)
  ultimately have short: "sent (handleOutputs ?h ?d (started 0) ?two)
      = [''xx'', ''xx'' @ [CHR 0x0A] @ ''x'']"
    by (simp add: chunksOf_def)
  show ?thesis by (intro conjI long short)
qed


section \<open>The result of a cancelled run\<close>

lemma handleOutputs_runError:
  "runError (handleOutputs h deps s evs) = runError s"
proof (induction evs arbitrary: s)
  case Nil
  then show ?case by simp
next
  case (Cons ev evs)
  obtain data str where ev: "ev = (data, str)" by (cases ev)
  have "runError (handleOutput h deps s ev) = runError s"
    unfolding ev handleOutput_eq
    by (cases str) (simp_all add: notify_def decode_def sniff_def Let_def split: prod.splits)
  then show ?case using Cons.IH by simp
qed

text \<open>
  When the exit event of the interactive shell's child arrives after any data
  events, the promise is resolved with the abort flag of that moment, the exit
  code and signal, every byte received and the decoded text of both streams:
  the output of a cancelled run is kept.
\<close>

theorem exit_resolves_promise:
  "resolved (onExit deps c sig isAborted pwdFile (handleOutputs h deps (started d0) evs))
     = Some \<lparr>rawOutput = concat (map fst evs),
             resultOutput =
               combinedOutput
                 (runStdout (onExit deps c sig isAborted pwdFile
                    (handleOutputs h deps (started d0) evs)))
                 (runStderr (onExit deps c sig isAborted pwdFile
                    (handleOutputs h deps (started d0) evs))),
             exitCode = c, signal = sig, resultError = None,
             aborted = isAborted, finalPwd = map_option trim pwdFile\<rparr>"
proof -
  let ?s = "handleOutputs h deps (started d0) evs"
  have r: "resolved ?s = None" by (simp add: handleOutputs_frame started_def)
  have e: "runError ?s = None" by (simp add: handleOutputs_runError started_def)
  have c: "outputChunks ?s = map fst evs" by (simp add: handleOutputs_frame started_def)
  show ?thesis by (simp add: onExit_def Let_def r e c)
qed

text \<open>
  The result \<^verbatim>\<open>ShellTool.execute\<close> builds for a cancelled run reports the cancellation
  and the output accumulated until the exit.
\<close>

theorem cancelled_result_keeps_output:
  "llmContent (buildResult cfg errorString getErrorMessage params True pid pids s)
     = ''Command was cancelled by user before it could complete.'' @
       (if trim (outputStr s) \<noteq> []
        then '' Below is the output (on stdout and stderr) before it was cancelled:''
             @ [CHR 0x0A] @ outputStr s
        else '' There was no output before it was cancelled.'')"
  by (simp add: buildResult_def Let_def)

end
